theory Spec2Isabelle
  imports Main "HOL-Library.Log_Nat"
begin

section \<open>Go runtime values\<close>

text \<open>
  The program is a single Go file, \<^verbatim>\<open>training-area/test-a.go\<close>. A run-time panic of
  the Go runtime is a value of \<open>go_panic\<close>; a function that can panic returns
  \<open>go_panic + 'a\<close>, with \<open>Inl\<close> for the panic.
\<close>

datatype go_panic = IndexOutOfRange | NilDereference | IntegerDivideByZero

text \<open>
  \<^verbatim>\<open>int64\<close> is modelled by \<open>int\<close> with the wrap-around of two's complement
  written out where an operation can leave the range.
\<close>

definition is_int64 :: "int \<Rightarrow> bool" where
  "is_int64 x \<longleftrightarrow> - (2 ^ 63) \<le> x \<and> x < 2 ^ 63"

definition wrap64 :: "int \<Rightarrow> int" where
  "wrap64 x = (x + 2 ^ 63) mod 2 ^ 64 - 2 ^ 63"

text \<open>Go's \<^verbatim>\<open>/\<close> and \<^verbatim>\<open>%\<close> on integers truncate towards zero.\<close>

definition quo :: "int \<Rightarrow> int \<Rightarrow> int" where
  "quo a b = wrap64 (sgn a * sgn b * (\<bar>a\<bar> div \<bar>b\<bar>))"

definition rem :: "int \<Rightarrow> int \<Rightarrow> int" where
  "rem a b = sgn a * (\<bar>a\<bar> mod \<bar>b\<bar>)"

section \<open>Decimal strings\<close>

definition digit_char :: "nat \<Rightarrow> char" where
  "digit_char d = ''0123456789'' ! d"

fun digits :: "nat \<Rightarrow> string" where
  "digits n = (if n < 10 then [digit_char n] else digits (n div 10) @ [digit_char (n mod 10)])"

declare digits.simps [simp del]

text \<open>\<^verbatim>\<open>strconv.FormatInt(v, 10)\<close> and \<^verbatim>\<open>strconv.Itoa\<close>.\<close>

definition FormatInt :: "int \<Rightarrow> string" where
  "FormatInt v = (if v < 0 then ''-'' @ digits (nat (- v)) else digits (nat v))"

definition Itoa :: "int \<Rightarrow> string" where
  "Itoa v = FormatInt v"

text \<open>\<^verbatim>\<open>strings.Join\<close>.\<close>

fun Join :: "string list \<Rightarrow> string \<Rightarrow> string" where
  "Join [] sep = []"
| "Join [x] sep = x"
| "Join (x # y # ys) sep = x @ sep @ Join (y # ys) sep"

section \<open>Comma\<close>

text \<open>
  The loop of \<^verbatim>\<open>Comma\<close>: while \<^verbatim>\<open>v > 999\<close>, store the last three digits
  of \<open>v\<close>, padded with zeros, in \<^verbatim>\<open>parts[j]\<close>, divide \<open>v\<close> by 1000 and decrement
  \<open>j\<close>. An index outside the slice panics.
\<close>

definition pad3 :: "string \<Rightarrow> string" where
  "pad3 p = (if length p = 2 then ''0'' @ p else if length p = 1 then ''00'' @ p else p)"

function comma_loop :: "int \<Rightarrow> string list \<Rightarrow> int \<Rightarrow> go_panic + (int \<times> string list \<times> int)" where
  "comma_loop v parts j =
     (if v > 999 then
        (if j < 0 \<or> int (length parts) \<le> j then Inl IndexOutOfRange
         else comma_loop (quo v 1000) (parts[nat j := pad3 (FormatInt (rem v 1000))]) (j - 1))
      else Inr (v, parts, j))"
  by pat_completeness auto

lemma quo_1000_less: "999 < v \<Longrightarrow> quo v 1000 < v"
proof -
  assume a: "999 < v"
  have b: "0 \<le> v div 1000" "v div 1000 < v" using a by auto
  have "wrap64 (v div 1000) \<le> v div 1000"
  proof (cases "v div 1000 < 2 ^ 63")
    case True
    then have "(v div 1000 + 2 ^ 63) mod 2 ^ 64 = v div 1000 + 2 ^ 63"
      using b by (intro mod_pos_pos_trivial) auto
    then show ?thesis by (simp add: wrap64_def)
  next
    case False
    have "(v div 1000 + 2 ^ 63) mod 2 ^ 64 < (2 ^ 64 :: int)"
      by (rule pos_mod_bound) simp
    then show ?thesis using False by (simp add: wrap64_def)
  qed
  then show ?thesis using a b by (simp add: quo_def)
qed

termination comma_loop
  by (relation "measure (\<lambda>(v, parts, j). nat v)") (auto simp: quo_1000_less)

declare comma_loop.simps [simp del]

definition Comma :: "int \<Rightarrow> go_panic + string" where
  "Comma v0 =
     (let sign = (if v0 < 0 then ''-'' else '''');
          v = (if v0 < 0 then wrap64 (0 - v0) else v0);
          parts = [[], [], [], [], [], [], []];
          j = int (length parts) - 1
      in case comma_loop v parts j of
           Inl e \<Rightarrow> Inl e
         | Inr (v', parts', j') \<Rightarrow>
             if j' < 0 \<or> int (length parts') \<le> j' then Inl IndexOutOfRange
             else Inr (sign @ Join (drop (nat j') (parts'[nat j' := Itoa v'])) '',''))"

subsection \<open>The loop computes the grouping\<close>

text \<open>
  \<open>grp n\<close> is the grouped decimal string of a natural number: the groups of three
  digits of \<open>n\<close>, the leading one unpadded, separated by commas.
\<close>

fun grp :: "nat \<Rightarrow> string" where
  "grp n = (if n > 999 then grp (n div 1000) @ '','' @ pad3 (digits (n mod 1000)) else digits n)"

declare grp.simps [simp del]

lemma Join_Cons: "Join (x # xs) sep = x @ concat (map (\<lambda>p. sep @ p) xs)"
  by (induction xs arbitrary: x) auto

lemma wrap64_id: "- (2 ^ 63) \<le> x \<Longrightarrow> x < 2 ^ 63 \<Longrightarrow> wrap64 x = x"
proof -
  assume a: "- (2 ^ 63) \<le> x" "x < 2 ^ 63"
  have "(x + 2 ^ 63) mod 2 ^ 64 = x + 2 ^ 63"
    using a by (intro mod_pos_pos_trivial) auto
  then show ?thesis by (simp add: wrap64_def)
qed

lemma quo_pos: "0 \<le> v \<Longrightarrow> v < 2 ^ 63 \<Longrightarrow> quo v 1000 = v div 1000"
proof -
  assume a: "0 \<le> v" "v < 2 ^ 63"
  have "v div 1000 \<le> v" using a by simp
  moreover have "0 \<le> v div 1000" using a by simp
  ultimately have "wrap64 (v div 1000) = v div 1000"
    using a by (intro wrap64_id) auto
  then show ?thesis using a by (cases "v = 0") (auto simp: quo_def)
qed

lemma rem_pos: "0 \<le> v \<Longrightarrow> rem v 1000 = v mod 1000"
  by (cases "v = 0") (auto simp: rem_def)

lemma comma_loop_grp:
  "0 \<le> v \<Longrightarrow> v < 2 ^ 63 \<Longrightarrow> 0 \<le> j \<Longrightarrow> j < int (length parts) \<Longrightarrow> v < 1000 ^ (nat j + 1) \<Longrightarrow>
   \<exists>v' parts' j'. comma_loop v parts j = Inr (v', parts', j') \<and> 0 \<le> v' \<and> 0 \<le> j' \<and> j' < int (length parts') \<and>
     digits (nat v') @ concat (map (\<lambda>p. '','' @ p) (drop (nat j' + 1) parts'))
       = grp (nat v) @ concat (map (\<lambda>p. '','' @ p) (drop (nat j + 1) parts))"
proof (induction v parts j rule: comma_loop.induct)
  case (1 v parts j)
  show ?case
  proof (cases "999 < v")
    case False
    then show ?thesis using "1.prems"
      by (subst comma_loop.simps) (simp add: grp.simps)
  next
    case True
    have j1: "1 \<le> j"
    proof (rule ccontr)
      assume "\<not> 1 \<le> j"
      then have "j = 0" using "1.prems" by simp
      then show False using "1.prems" True by simp
    qed
    let ?p = "pad3 (FormatInt (rem v 1000))"
    let ?parts = "parts[nat j := ?p]"
    have q: "quo v 1000 = v div 1000" using "1.prems" by (simp add: quo_pos)
    have r: "FormatInt (rem v 1000) = digits (nat (v mod 1000))"
      using "1.prems" by (simp add: rem_pos FormatInt_def)
    have nj: "nat (j - 1) + 1 = nat j" using j1 by simp
    have "v < 1000 * 1000 ^ nat j" using "1.prems" by simp
    then have b: "v div 1000 < 1000 ^ (nat (j - 1) + 1)"
      unfolding nj by simp
    have b2: "v div 1000 < 2 ^ 63" using "1.prems"
      by simp
    have nojp: "\<not> (j < 0 \<or> int (length parts) \<le> j)" using "1.prems" by simp
    have b0: "0 \<le> v div 1000" using "1.prems" by simp
    have jl: "0 \<le> j - 1" "j - 1 < int (length ?parts)" using j1 "1.prems" by simp_all
    have "\<exists>v' parts' j'. comma_loop (v div 1000) ?parts (j - 1) = Inr (v', parts', j') \<and>
         0 \<le> v' \<and> 0 \<le> j' \<and> j' < int (length parts') \<and>
         digits (nat v') @ concat (map (\<lambda>p. '','' @ p) (drop (nat j' + 1) parts'))
           = grp (nat (v div 1000)) @ concat (map (\<lambda>p. '','' @ p) (drop (nat (j - 1) + 1) ?parts))"
      using "1.IH"[OF True nojp, unfolded q, OF b0 b2 jl b] .
    then obtain v' parts' j' where
      h: "comma_loop (v div 1000) ?parts (j - 1) = Inr (v', parts', j')"
         "0 \<le> v'" "0 \<le> j'" "j' < int (length parts')"
         "digits (nat v') @ concat (map (\<lambda>p. '','' @ p) (drop (nat j' + 1) parts'))
           = grp (nat (v div 1000)) @ concat (map (\<lambda>p. '','' @ p) (drop (nat (j - 1) + 1) ?parts))"
      by blast
    have d: "drop (nat j) ?parts = ?p # drop (nat j + 1) parts"
      using "1.prems" by (simp add: drop_update_cancel Cons_nth_drop_Suc[symmetric] nat_less_iff)
    have g: "grp (nat v) = grp (nat (v div 1000)) @ '','' @ pad3 (digits (nat (v mod 1000)))"
    proof -
      have nv: "999 < nat v" using True by simp
      have "grp (nat v) = grp (nat v div 1000) @ '','' @ pad3 (digits (nat v mod 1000))"
        using nv by (subst grp.simps) simp
      then show ?thesis using "1.prems" by (simp add: nat_div_distrib nat_mod_distrib)
    qed
    have "comma_loop v parts j = Inr (v', parts', j')"
      using True nojp h(1) q by (subst comma_loop.simps) simp
    then show ?thesis using h(2,3,4,5) d g r unfolding nj by simp
  qed
qed


lemma drop_update_same: "k < length xs \<Longrightarrow> drop k (xs[k := x]) = x # drop (Suc k) xs"
  by (simp add: drop_update_cancel Cons_nth_drop_Suc[symmetric])

lemma Comma_nonneg: "0 \<le> n \<Longrightarrow> n < 2 ^ 63 \<Longrightarrow> Comma n = Inr (grp (nat n))"
proof -
  assume a: "0 \<le> n" "n < 2 ^ 63"
  let ?parts = "[[], [], [], [], [], [], []] :: string list"
  have "n < 1000 ^ (nat 6 + 1)" using a by simp
  with a comma_loop_grp[of n 6 ?parts]
  obtain v' parts' j' where
    h: "comma_loop n ?parts 6 = Inr (v', parts', j')" "0 \<le> v'" "0 \<le> j'" "j' < int (length parts')"
       "digits (nat v') @ concat (map (\<lambda>p. '','' @ p) (drop (nat j' + 1) parts'))
           = grp (nat n) @ concat (map (\<lambda>p. '','' @ p) (drop (nat 6 + 1) ?parts))"
    by auto
  have "nat j' < length parts'" using h(3,4) by (simp add: nat_less_iff)
  then have "Join (drop (nat j') (parts'[nat j' := Itoa v'])) '','' = grp (nat n)"
    using h(2,5) by (simp add: drop_update_same Join_Cons Itoa_def FormatInt_def)
  then show ?thesis
    using a h(1,3,4) by (simp add: Comma_def)
qed

lemma Comma_neg: "- (2 ^ 63) < v \<Longrightarrow> v < 0 \<Longrightarrow> Comma v = Inr (''-'' @ grp (nat (- v)))"
proof -
  assume a: "- (2 ^ 63) < v" "v < 0"
  let ?parts = "[[], [], [], [], [], [], []] :: string list"
  have w: "wrap64 (0 - v) = - v" using a wrap64_id[of "- v"] by simp
  have "0 \<le> - v" "- v < 2 ^ 63" "- v < 1000 ^ (nat 6 + 1)" using a by simp_all
  with comma_loop_grp[of "- v" 6 ?parts]
  obtain v' parts' j' where
    h: "comma_loop (- v) ?parts 6 = Inr (v', parts', j')" "0 \<le> v'" "0 \<le> j'" "j' < int (length parts')"
       "digits (nat v') @ concat (map (\<lambda>p. '','' @ p) (drop (nat j' + 1) parts'))
           = grp (nat (- v)) @ concat (map (\<lambda>p. '','' @ p) (drop (nat 6 + 1) ?parts))"
    by auto
  have "nat j' < length parts'" using h(3,4) by (simp add: nat_less_iff)
  then have "Join (drop (nat j') (parts'[nat j' := Itoa v'])) '','' = grp (nat (- v))"
    using h(2,5) by (simp add: drop_update_same Join_Cons Itoa_def FormatInt_def)
  then show ?thesis
    using a h(1,3,4) w by (simp add: Comma_def)
qed

subsection \<open>Stripping the separators and parsing\<close>

text \<open>
  The program has no parser; the round trip of the specification is stated with
  \<open>strip_separators\<close> (remove every comma) and \<open>parse_decimal\<close> (an optional minus
  sign followed by at least one decimal digit).
\<close>

definition strip_separators :: "string \<Rightarrow> string" where
  "strip_separators s = filter (\<lambda>c. c \<noteq> CHR '','') s"

definition digit_value :: "char \<Rightarrow> nat option" where
  "digit_value c = map_of (zip ''0123456789'' [0, 1, 2, 3, 4, 5, 6, 7, 8, 9]) c"

fun parse_digits :: "string \<Rightarrow> nat \<Rightarrow> nat option" where
  "parse_digits [] acc = Some acc"
| "parse_digits (c # cs) acc =
     (case digit_value c of None \<Rightarrow> None | Some d \<Rightarrow> parse_digits cs (10 * acc + d))"

definition parse_decimal :: "string \<Rightarrow> int option" where
  "parse_decimal s =
     (if s = [] then None
      else if hd s = CHR ''-'' then
        (if tl s = [] then None else map_option (\<lambda>n. - int n) (parse_digits (tl s) 0))
      else map_option int (parse_digits s 0))"

lemma lt10_cases: "d < 10 \<Longrightarrow> d \<in> {0, 1, 2, 3, 4, 5, 6, 7, 8, 9 :: nat}"
  by auto

lemma digit_value_digit_char: "d < 10 \<Longrightarrow> digit_value (digit_char d) = Some d"
  using lt10_cases[of d] by (auto simp: digit_value_def digit_char_def)

lemma digit_char_not_sep: "d < 10 \<Longrightarrow> digit_char d \<noteq> CHR '',''"
  using lt10_cases[of d] by (auto simp: digit_char_def)

lemma parse_digits_snoc:
  "parse_digits (xs @ [c]) acc =
     (case parse_digits xs acc of None \<Rightarrow> None
      | Some a \<Rightarrow> (case digit_value c of None \<Rightarrow> None | Some d \<Rightarrow> Some (10 * a + d)))"
  by (induction xs arbitrary: acc) (auto split: option.splits)

lemma parse_digits_shift:
  "parse_digits xs 0 = Some a \<Longrightarrow> parse_digits xs acc = Some (acc * 10 ^ length xs + a)"
proof (induction xs arbitrary: a rule: rev_induct)
  case Nil
  then show ?case by simp
next
  case (snoc c xs)
  then show ?case
    by (auto simp: parse_digits_snoc algebra_simps split: option.splits)
qed

lemma parse_digits_append:
  "parse_digits xs 0 = Some a \<Longrightarrow> parse_digits ys 0 = Some b \<Longrightarrow>
   parse_digits (xs @ ys) 0 = Some (a * 10 ^ length ys + b)"
proof (induction ys arbitrary: b rule: rev_induct)
  case Nil
  then show ?case by simp
next
  case (snoc c ys)
  then show ?case
    by (auto simp: parse_digits_snoc algebra_simps simp flip: append_assoc split: option.splits)
qed

lemma parse_digits_digits: "parse_digits (digits n) 0 = Some n"
proof (induction n rule: digits.induct)
  case (1 n)
  show ?case
  proof (cases "n < 10")
    case True
    then show ?thesis by (subst digits.simps) (simp add: digit_value_digit_char)
  next
    case False
    have "digits n = digits (n div 10) @ [digit_char (n mod 10)]"
      using False by (subst digits.simps) simp
    then show ?thesis using "1.IH"[OF False]
      by (simp add: parse_digits_snoc digit_value_digit_char)
  qed
qed

lemma digits_no_sep: "CHR '','' \<notin> set (digits n)"
proof (induction n rule: digits.induct)
  case (1 n)
  show ?case
  proof (cases "n < 10")
    case True
    then show ?thesis using digit_char_not_sep[of n] by (subst digits.simps) auto
  next
    case False
    have "digits n = digits (n div 10) @ [digit_char (n mod 10)]"
      using False by (subst digits.simps) simp
    then show ?thesis using "1.IH"[OF False] digit_char_not_sep[of "n mod 10"]
      by auto
  qed
qed

lemma length_digits_lt1000:
  "n < 1000 \<Longrightarrow> length (digits n) = (if n < 10 then 1 else if n < 100 then 2 else 3)"
  by (subst digits.simps, subst digits.simps, subst digits.simps) (auto simp: )

lemma length_pad3_digits: "r < 1000 \<Longrightarrow> length (pad3 (digits r)) = 3"
  by (simp add: pad3_def length_digits_lt1000)

lemma parse_pad3_digits: "parse_digits (pad3 (digits r)) 0 = Some r"
  by (simp add: pad3_def parse_digits_digits digit_value_def)

lemma pad3_no_sep: "CHR '','' \<notin> set (pad3 (digits r))"
  using digits_no_sep[of r] by (simp add: pad3_def)

lemma strip_no_sep: "CHR '','' \<notin> set s \<Longrightarrow> strip_separators s = s"
  by (induction s) (auto simp: strip_separators_def)

lemma strip_append: "strip_separators (a @ b) = strip_separators a @ strip_separators b"
  by (simp add: strip_separators_def)

lemma parse_strip_grp: "parse_digits (strip_separators (grp n)) 0 = Some n"
proof (induction n rule: grp.induct)
  case (1 n)
  show ?case
  proof (cases "999 < n")
    case False
    then show ?thesis
      by (subst grp.simps) (simp add: strip_no_sep digits_no_sep parse_digits_digits)
  next
    case True
    have g: "grp n = grp (n div 1000) @ '','' @ pad3 (digits (n mod 1000))"
      using True by (subst grp.simps) simp
    have s: "strip_separators (grp n)
               = strip_separators (grp (n div 1000)) @ pad3 (digits (n mod 1000))"
      unfolding g strip_append by (simp add: strip_no_sep pad3_no_sep) (simp add: strip_separators_def)
    show ?thesis
      unfolding s
      using parse_digits_append[OF "1.IH"[OF True] parse_pad3_digits[of "n mod 1000"]]
      by (simp add: length_pad3_digits)
  qed
qed

lemma digits_nonempty: "digits n \<noteq> []"
  by (subst digits.simps) simp

lemma parse_digits_hd: "s \<noteq> [] \<Longrightarrow> parse_digits s 0 = Some a \<Longrightarrow> hd s \<noteq> CHR ''-''"
  by (cases s) (auto simp: digit_value_def split: option.splits)

lemma grp_nonempty: "strip_separators (grp n) \<noteq> []"
proof (cases "999 < n")
  case False
  then show ?thesis
    by (subst grp.simps) (simp add: strip_no_sep digits_no_sep digits_nonempty)
next
  case True
  have "strip_separators (pad3 (digits (n mod 1000))) \<noteq> []"
    by (simp add: strip_no_sep pad3_no_sep) (simp add: pad3_def digits_nonempty)
  moreover have "strip_separators (CHR '','' # pad3 (digits (n mod 1000)))
      = strip_separators (pad3 (digits (n mod 1000)))"
    by (simp add: strip_separators_def)
  ultimately show ?thesis using True
    by (subst grp.simps) (simp add: strip_append)
qed

lemma parse_decimal_grp: "parse_decimal (strip_separators (grp n)) = Some (int n)"
  using parse_digits_hd[OF grp_nonempty parse_strip_grp, of n]
  by (simp add: parse_decimal_def grp_nonempty parse_strip_grp)

text \<open>
  C5: \<open>Comma 1234567\<close> is \<open>1,234,567\<close>, \<open>Comma (-42)\<close> is \<open>-42\<close>, and for every
  non-negative \<^verbatim>\<open>int64\<close> \<open>n\<close>, \<open>Comma n\<close> returns a string from which stripping the
  commas and parsing the decimal number gives \<open>n\<close> back.
\<close>

theorem Comma_roundtrip:
  "Comma 1234567 = Inr ''1,234,567'' \<and> Comma (- 42) = Inr ''-42'' \<and>
   (\<forall>n. 0 \<le> n \<and> n < 2 ^ 63 \<longrightarrow>
      (\<exists>s. Comma n = Inr s \<and> parse_decimal (strip_separators s) = Some n))"
proof (intro conjI allI impI)
  show "Comma 1234567 = Inr ''1,234,567''"
    by (simp add: Comma_def comma_loop.simps Itoa_def FormatInt_def digits.simps
        digit_char_def quo_def rem_def pad3_def wrap64_def)
  show "Comma (- 42) = Inr ''-42''"
    by (simp add: Comma_def comma_loop.simps Itoa_def FormatInt_def digits.simps
        digit_char_def wrap64_def)
next
  fix n :: int
  assume "0 \<le> n \<and> n < 2 ^ 63"
  then show "\<exists>s. Comma n = Inr s \<and> parse_decimal (strip_separators s) = Some n"
    by (simp add: Comma_nonneg parse_decimal_grp)
qed

theorem Comma_roundtrip_witness:
  "(0::int) \<le> 1000000 \<and> (1000000::int) < 2 ^ 63 \<and>
   Comma 1000000 = Inr ''1,000,000'' \<and>
   parse_decimal (strip_separators ''1,000,000'') = Some 1000000"
proof -
  have c: "Comma 1000000 = Inr ''1,000,000''"
    by (simp add: Comma_def comma_loop.simps Itoa_def FormatInt_def digits.simps
        digit_char_def quo_def rem_def pad3_def wrap64_def)
  from Comma_roundtrip have
    "(0::int) \<le> 1000000 \<and> (1000000::int) < 2 ^ 63 \<longrightarrow>
      (\<exists>s. Comma 1000000 = Inr s \<and> parse_decimal (strip_separators s) = Some 1000000)"
    by blast
  then show ?thesis using c by simp
qed

subsection \<open>Grouping as the specification words it\<close>

text \<open>
  The specification's thousands-grouping: a separator every three digits, counted from
  the right of the decimal representation of \<open>\<bar>v\<bar>\<close>, with a leading minus sign for a
  negative \<open>v\<close>.
\<close>

function group_digits :: "string \<Rightarrow> string" where
  "group_digits ds =
     (if length ds \<le> 3 then ds
      else group_digits (take (length ds - 3) ds) @ '','' @ drop (length ds - 3) ds)"
  by pat_completeness auto
termination group_digits
  by (relation "measure length") auto

declare group_digits.simps [simp del]

definition groupThousands_spec :: "int \<Rightarrow> string" where
  "groupThousands_spec v =
     (if v < 0 then ''-'' @ group_digits (digits (nat \<bar>v\<bar>)) else group_digits (digits (nat v)))"

lemma digits_step: "10 \<le> n \<Longrightarrow> digits n = digits (n div 10) @ [digit_char (n mod 10)]"
  by (subst digits.simps) simp

lemma digits_small: "n < 10 \<Longrightarrow> digits n = [digit_char n]"
  by (subst digits.simps) simp

lemma digit_char_0: "digit_char 0 = CHR ''0''"
  by (simp add: digit_char_def)

lemma mod1000_mod10: "(n::nat) mod 1000 mod 10 = n mod 10"
  by (simp add: mod_mod_cancel)

lemma mod1000_div100: "(n::nat) mod 1000 div 100 = n div 100 mod 10"
proof -
  have "n mod (100 * 10) = 100 * (n div 100 mod 10) + n mod 100" by (rule mod_mult2_eq)
  then show ?thesis by simp
qed

lemma mod1000_div10: "(n::nat) mod 1000 div 10 mod 10 = n div 10 mod 10"
proof -
  have "n mod (10 * 100) = 10 * (n div 10 mod 100) + n mod 10" by (rule mod_mult2_eq)
  then have "n mod 1000 div 10 = n div 10 mod 100" by simp
  then show ?thesis by (simp add: mod_mod_cancel)
qed

lemma digits_1000:
  "1000 \<le> n \<Longrightarrow> digits n = digits (n div 1000) @ pad3 (digits (n mod 1000))"
proof -
  assume a: "1000 \<le> n"
  let ?r = "n mod 1000"
  have d1: "digits n = digits (n div 10) @ [digit_char (n mod 10)]"
    using a by (simp add: digits_step)
  have d2: "digits (n div 10) = digits (n div 100) @ [digit_char (n div 10 mod 10)]"
    using a by (subst digits_step) (simp_all add: div_mult2_eq[symmetric])
  have d3: "digits (n div 100) = digits (n div 1000) @ [digit_char (n div 100 mod 10)]"
    using a by (subst digits_step) (simp_all add: div_mult2_eq[symmetric])
  have r: "pad3 (digits ?r) = [digit_char (?r div 100), digit_char (?r div 10 mod 10), digit_char (?r mod 10)]"
  proof -
    consider "?r < 10" | "10 \<le> ?r" "?r < 100" | "100 \<le> ?r" by linarith
    then show ?thesis
    proof cases
      case 1
      then show ?thesis by (simp add: digits_small pad3_def digit_char_0)
    next
      case 2
      then have "?r div 10 < 10" by simp
      then show ?thesis using 2
        by (simp add: digits_step digits_small pad3_def digit_char_0)
    next
      case 3
      have "?r < 1000" by simp
      then have "?r div 100 < 10" "10 \<le> ?r div 10" using 3 by simp_all
      then show ?thesis using 3
        by (simp add: digits_step[of ?r] digits_step[of "?r div 10"] digits_small pad3_def div_mult2_eq[symmetric])
    qed
  qed
  have m: "?r div 100 = n div 100 mod 10" "?r div 10 mod 10 = n div 10 mod 10" "?r mod 10 = n mod 10"
    by (rule mod1000_div100, rule mod1000_div10, rule mod1000_mod10)
  show ?thesis unfolding d1 d2 d3 r m by simp
qed

lemma length_digits_le3: "length (digits n) \<le> 3 \<longleftrightarrow> n \<le> 999"
proof (cases "n \<le> 999")
  case True
  then show ?thesis by (simp add: length_digits_lt1000)
next
  case False
  then have "length (digits n) = length (digits (n div 1000)) + 3"
    by (simp add: digits_1000 length_pad3_digits)
  moreover have "0 < length (digits (n div 1000))" using digits_nonempty by simp
  ultimately show ?thesis using False by simp
qed

lemma group_digits_grp: "group_digits (digits n) = grp n"
proof (induction n rule: grp.induct)
  case (1 n)
  show ?case
  proof (cases "999 < n")
    case False
    then show ?thesis
      by (subst group_digits.simps, subst grp.simps) (simp add: length_digits_le3)
  next
    case True
    have l: "\<not> length (digits n) \<le> 3" using True by (simp add: length_digits_le3)
    have d: "digits n = digits (n div 1000) @ pad3 (digits (n mod 1000))"
      using True by (simp add: digits_1000)
    have t: "take (length (digits n) - 3) (digits n) = digits (n div 1000)"
      "drop (length (digits n) - 3) (digits n) = pad3 (digits (n mod 1000))"
      by (subst (1 2) d, simp add: length_pad3_digits)+
    show ?thesis
      using l True "1.IH"[OF True]
      by (subst group_digits.simps, subst grp.simps) (simp add: t)
  qed
qed

lemma Comma_eq_spec:
  "- (2 ^ 63) < v \<Longrightarrow> v < 2 ^ 63 \<Longrightarrow> Comma v = Inr (groupThousands_spec v)"
  by (cases "v < 0") (simp_all add: Comma_neg Comma_nonneg groupThousands_spec_def group_digits_grp)

text \<open>
  C4: on every \<^verbatim>\<open>int64\<close> other than the least one, \<open>Comma\<close> is the specification's
  grouping (\<open>Comma_eq_spec\<close>). At the least \<^verbatim>\<open>int64\<close>, \<open>- 2 ^ 63\<close>, the negation
  \<^verbatim>\<open>v = 0 - v\<close> wraps around to the same negative number, the loop does not run, and the
  result is the sign followed by \<open>Itoa\<close> of a negative number: two minus signs and no
  separator, where the grouping of \<open>\<bar>v\<bar>\<close> is \<open>9,223,372,036,854,775,808\<close>.
\<close>

theorem Comma_min_int64:
  "is_int64 (- (2 ^ 63)) \<and>
   Comma (- (2 ^ 63)) = Inr ''--9223372036854775808'' \<and>
   groupThousands_spec (- (2 ^ 63)) = ''-9,223,372,036,854,775,808''"
proof (intro conjI)
  show "is_int64 (- (2 ^ 63))" by (simp add: is_int64_def)
  show "Comma (- (2 ^ 63)) = Inr ''--9223372036854775808''"
    by (simp add: Comma_def wrap64_def comma_loop.simps Itoa_def FormatInt_def digits.simps digit_char_def)
  show "groupThousands_spec (- (2 ^ 63)) = ''-9,223,372,036,854,775,808''"
    by (simp add: groupThousands_spec_def digits.simps digit_char_def group_digits.simps)
qed

section \<open>float64\<close>

text \<open>
  A finite \<^verbatim>\<open>float64\<close> is modelled by the rational number it denotes. Every
  operation computes the exact rational result and rounds it to the nearest \<^verbatim>\<open>float64\<close>,
  ties to the even significand (IEEE 754 binary64: 53 significant bits, least normal
  exponent \<open>-1022\<close>, below which the spacing stays that of the subnormal numbers).
  Overflow to infinity is left out: every float of the program is the conversion of an
  \<^verbatim>\<open>int64\<close> or a quotient of such a value by 1000, which stays below \<open>2 ^ 1024\<close>.

  \<open>rne\<close> rounds a rational to the nearest integer, ties to even; \<open>ilog2 x\<close> is the
  floor of the binary logarithm of a positive \<open>x\<close>.
\<close>

definition rne :: "rat \<Rightarrow> int" where
  "rne x = (let n = \<lfloor>x\<rfloor>; d = x - of_int n
            in if d < 1 / 2 then n else if 1 / 2 < d then n + 1
               else if even n then n else n + 1)"

definition ilog2 :: "rat \<Rightarrow> int" where
  "ilog2 x = (if 1 \<le> x then int (floorlog 2 (nat \<lfloor>x\<rfloor>)) - 1
              else let y = 1 / x; k = int (floorlog 2 (nat \<lfloor>y\<rfloor>)) - 1
                   in if y = 2 powi k then - k else - k - 1)"

definition f64_round :: "rat \<Rightarrow> rat" where
  "f64_round x = (if x = 0 then 0
                  else let e = max (ilog2 \<bar>x\<bar>) (- 1022); u = 2 powi (e - 52)
                       in of_int (rne (x / u)) * u)"

text \<open>The conversion \<^verbatim>\<open>float64(n)\<close> of an integer and the division of two floats.\<close>

definition f64_of_int :: "int \<Rightarrow> rat" where
  "f64_of_int n = f64_round (of_int n)"

definition f64_div :: "rat \<Rightarrow> rat \<Rightarrow> rat" where
  "f64_div a b = f64_round (a / b)"

text \<open>Evaluation of the rounding on numerals.\<close>

lemma floor_numeral_div: "\<lfloor>numeral a / numeral b :: rat\<rfloor> = numeral a div numeral b"
  using floor_divide_of_int_eq[of "numeral a" "numeral b", where ?'a = rat] by simp

lemmas f64_eval = f64_round_def ilog2_def rne_def Let_def compute_floorlog floor_numeral_div

subsection \<open>Properties of the rounding\<close>

lemma rne_cases:
  obtains n d where "x = of_int n + d" "0 \<le> d" "d < 1" "n = \<lfloor>x\<rfloor>"
    "rne x = (if d < 1 / 2 then n else if 1 / 2 < d then n + 1 else if even n then n else n + 1)"
proof -
  define n where "n = \<lfloor>x\<rfloor>"
  define d where "d = x - of_int n"
  have "x = of_int n + d" by (simp add: d_def)
  moreover have "0 \<le> d" "d < 1" unfolding d_def n_def by linarith+
  moreover have "rne x = (if d < 1 / 2 then n else if 1 / 2 < d then n + 1 else if even n then n else n + 1)"
    by (simp add: rne_def Let_def n_def d_def)
  ultimately show ?thesis using that n_def by blast
qed

lemma rne_bounds: "of_int (rne x) \<le> x + 1 / 2" "x - 1 / 2 \<le> of_int (rne x)"
proof -
  obtain n and d :: rat where h: "x = of_int n + d" "0 \<le> d" "d < 1"
    "rne x = (if d < 1 / 2 then n else if 1 / 2 < d then n + 1 else if even n then n else n + 1)"
    by (rule rne_cases[of x])
  have "of_int (rne x) \<le> of_int n + d + 1 / 2" unfolding h(4) using h(2,3) by (simp split: if_splits)
  then show "of_int (rne x) \<le> x + 1 / 2" using h(1) by simp
  have "of_int n + d - 1 / 2 \<le> of_int (rne x)" unfolding h(4) using h(2,3) by (simp split: if_splits)
  then show "x - 1 / 2 \<le> of_int (rne x)" using h(1) by simp
qed

lemma rne_ge_floor: "\<lfloor>x\<rfloor> \<le> rne x" and rne_le_floor1: "rne x \<le> \<lfloor>x\<rfloor> + 1"
proof -
  obtain n and d :: rat where h: "n = \<lfloor>x\<rfloor>"
    "rne x = (if d < 1 / 2 then n else if 1 / 2 < d then n + 1 else if even n then n else n + 1)"
    by (rule rne_cases[of x])
  show "\<lfloor>x\<rfloor> \<le> rne x" unfolding h(2) h(1)[symmetric] by simp
  show "rne x \<le> \<lfloor>x\<rfloor> + 1" unfolding h(2) h(1)[symmetric] by simp
qed

lemma rne_of_int: "rne (of_int k) = k"
  by (simp add: rne_def)

lemma rne_le_int: "x \<le> of_int k \<Longrightarrow> rne x \<le> k"
proof -
  assume a: "x \<le> of_int k"
  have f: "of_int \<lfloor>x\<rfloor> \<le> x" "x < of_int \<lfloor>x\<rfloor> + 1" by linarith+
  have fk: "\<lfloor>x\<rfloor> \<le> k" using a by (simp add: floor_le_iff)
  show ?thesis
  proof (cases "\<lfloor>x\<rfloor> = k")
    case True
    then have "x = of_int k" using a f by simp
    then show ?thesis by (simp add: rne_of_int)
  next
    case False
    then have "\<lfloor>x\<rfloor> + 1 \<le> k" using fk by simp
    moreover have "rne x \<le> \<lfloor>x\<rfloor> + 1" by (rule rne_le_floor1)
    ultimately show ?thesis by (rule order_trans[rotated])
  qed
qed

lemma rne_nonneg: "0 \<le> x \<Longrightarrow> 0 \<le> rne x"
proof -
  assume "0 \<le> x"
  then have "0 \<le> \<lfloor>x\<rfloor>" by simp
  moreover have "\<lfloor>x\<rfloor> \<le> rne x" by (rule rne_ge_floor)
  ultimately show ?thesis by (rule order_trans)
qed

lemma floorlog_pos: "0 < n \<Longrightarrow> 1 \<le> floorlog 2 n"
  using floorlog_eq_zero_iff[of 2 n] by (cases "floorlog 2 n") auto

lemma ilog2_ge1:
  assumes "1 \<le> x"
  shows "0 \<le> ilog2 x" and "2 powi (ilog2 x) \<le> x" and "x < 2 powi (ilog2 x + 1)"
proof -
  define n where "n = nat \<lfloor>x\<rfloor>"
  define f where "f = floorlog 2 n"
  have n: "0 < n" using assms by (simp add: n_def)
  have b: "2 ^ (f - 1) \<le> n" "n < 2 ^ f" using floorlog_bounds[of n 2] n by (simp_all add: f_def)
  have f1: "1 \<le> f" unfolding f_def using n by (rule floorlog_pos)
  have i: "ilog2 x = int f - 1" using assms by (simp add: ilog2_def f_def n_def)
  show "0 \<le> ilog2 x" using i f1 by simp
  have nx: "rat_of_nat n \<le> x" using assms by (simp add: n_def)
  have nx1: "x < rat_of_nat (Suc n)"
  proof -
    have "x < of_int \<lfloor>x\<rfloor> + 1" by linarith
    moreover have "rat_of_nat (Suc n) = of_int \<lfloor>x\<rfloor> + 1" using assms by (simp add: n_def)
    ultimately show ?thesis by simp
  qed
  have "rat_of_nat (2 ^ (f - 1)) \<le> rat_of_nat n" using b(1) by (simp only: of_nat_le_iff)
  then have "rat_of_nat (2 ^ (f - 1)) \<le> x" using nx by (rule order_trans)
  then have "(2::rat) ^ (f - 1) \<le> x" by simp
  moreover have "(2::rat) powi (ilog2 x) = 2 ^ (f - 1)"
    using i f1 by (simp add: power_int_def nat_diff_distrib)
  ultimately show "2 powi (ilog2 x) \<le> x" by simp
  have "Suc n \<le> 2 ^ f" using b(2) by simp
  then have "rat_of_nat (Suc n) \<le> rat_of_nat (2 ^ f)" by (simp only: of_nat_le_iff)
  with nx1 have "x < rat_of_nat (2 ^ f)" by (rule less_le_trans)
  then have "x < (2::rat) ^ f" by simp
  moreover have "(2::rat) powi (ilog2 x + 1) = 2 ^ f"
    using i by (simp add: power_int_def)
  ultimately show "x < 2 powi (ilog2 x + 1)" by simp
qed

lemma ilog2_mono: "1 \<le> x \<Longrightarrow> x \<le> y \<Longrightarrow> ilog2 x \<le> ilog2 y"
proof -
  assume a: "1 \<le> x" "x \<le> y"
  have "nat \<lfloor>x\<rfloor> \<le> nat \<lfloor>y\<rfloor>" using a by (simp add: floor_mono nat_mono)
  then have "floorlog 2 (nat \<lfloor>x\<rfloor>) \<le> floorlog 2 (nat \<lfloor>y\<rfloor>)" by (rule floorlog_mono)
  then show ?thesis using a by (simp add: ilog2_def)
qed

lemma f64_round_ge1:
  "1 \<le> x \<Longrightarrow> f64_round x = of_int (rne (x / 2 powi (ilog2 x - 52))) * 2 powi (ilog2 x - 52)"
proof -
  assume a: "1 \<le> x"
  have "0 \<le> ilog2 x" using a by (rule ilog2_ge1)
  then have "max (ilog2 \<bar>x\<bar>) (- 1022) = ilog2 x" using a by simp
  then show ?thesis using a by (simp add: f64_round_def Let_def)
qed

lemma f64_round_nonneg: "0 \<le> x \<Longrightarrow> 0 \<le> f64_round x"
proof (cases "x = 0")
  case True
  then show ?thesis by (simp add: f64_round_def)
next
  case False
  assume a: "0 \<le> x"
  define u :: rat where "u = 2 powi (max (ilog2 \<bar>x\<bar>) (- 1022) - 52)"
  have u: "0 < u" by (simp add: u_def)
  have "0 \<le> x / u" using a u by simp
  then have "0 \<le> rne (x / u)" by (rule rne_nonneg)
  then have "0 \<le> of_int (rne (x / u)) * u" using u by simp
  then show ?thesis using False by (simp add: f64_round_def Let_def u_def)
qed

lemma f64_round_le:
  assumes "1 \<le> x" "x \<le> y" "f64_round y = y"
  shows "f64_round x \<le> y"
proof -
  define ex where "ex = ilog2 x"
  define ey where "ey = ilog2 y"
  define ux :: rat where "ux = 2 powi (ex - 52)"
  define uy :: rat where "uy = 2 powi (ey - 52)"
  define k where "k = rne (y / uy)"
  have y1: "1 \<le> y" using assms by simp
  have e: "ex \<le> ey" unfolding ex_def ey_def using assms(1,2) by (rule ilog2_mono)
  have ux: "0 < ux" by (simp add: ux_def)
  have rx: "f64_round x = of_int (rne (x / ux)) * ux"
    unfolding ux_def ex_def using assms(1) by (rule f64_round_ge1)
  have "f64_round y = of_int k * uy"
    unfolding k_def uy_def ey_def using y1 by (rule f64_round_ge1)
  then have y: "y = of_int k * uy" using assms(3) by simp
  have "ey - 52 = (ex - 52) + int (nat (ey - ex))" using e by simp
  then have "uy = 2 powi (ex - 52) * 2 powi (int (nat (ey - ex)))"
    unfolding uy_def by (simp only: power_int_add[of "2::rat", simplified])
  then have uy: "uy = ux * 2 ^ nat (ey - ex)" by (simp only: ux_def power_int_of_nat)
  have "y / ux = of_int k * 2 ^ nat (ey - ex)" using ux by (simp add: y uy)
  then have yK: "y / ux = of_int (k * 2 ^ nat (ey - ex))" by simp
  have "x / ux \<le> y / ux" using assms(2) ux by (simp add: divide_right_mono)
  then have "rne (x / ux) \<le> k * 2 ^ nat (ey - ex)" unfolding yK by (rule rne_le_int)
  then have "rat_of_int (rne (x / ux)) \<le> of_int (k * 2 ^ nat (ey - ex))" by (simp only: of_int_le_iff)
  then have "of_int (rne (x / ux)) * ux \<le> of_int (k * 2 ^ nat (ey - ex)) * ux"
    using ux by (simp only: mult_le_cancel_right_pos)
  also have "\<dots> = y" by (simp add: y uy mult.commute)
  finally show ?thesis unfolding rx .
qed

lemma f64_round_le_double: "1 \<le> x \<Longrightarrow> f64_round x \<le> 2 * x"
proof -
  assume a: "1 \<le> x"
  define u :: rat where "u = 2 powi (ilog2 x - 52)"
  have u: "0 < u" by (simp add: u_def)
  have rx: "f64_round x = of_int (rne (x / u)) * u"
    unfolding u_def using a by (rule f64_round_ge1)
  have "u \<le> 2 powi (ilog2 x)" unfolding u_def by (rule power_int_increasing) simp_all
  also have "\<dots> \<le> x" using a by (rule ilog2_ge1)
  finally have ux: "u \<le> x" .
  have "of_int (rne (x / u)) \<le> x / u + 1 / 2" by (rule rne_bounds)
  then have "of_int (rne (x / u)) * u \<le> (x / u + 1 / 2) * u"
    using u by (simp only: mult_le_cancel_right_pos)
  also have "\<dots> = x + u / 2" using u by (simp add: field_simps)
  also have "\<dots> \<le> 2 * x" using ux a by simp
  finally show ?thesis unfolding rx .
qed

section \<open>FileSizeFormat and MeasureTransferRate\<close>

text \<open>
  The loop of \<^verbatim>\<open>FileSizeFormat\<close>: while \<^verbatim>\<open>value > 1000\<close>, divide \<open>value\<close> by 1000
  and increment the unit index. The loop has no bound on the index; the index is checked
  when \<^verbatim>\<open>units[i]\<close> is read.
\<close>

function size_loop :: "rat \<Rightarrow> int \<Rightarrow> rat \<times> int" where
  "size_loop value i =
     (if value > 1000 then size_loop (f64_div value 1000) (i + 1) else (value, i))"
  by pat_completeness auto

lemma f64_div_1000_floor: "1000 < v \<Longrightarrow> \<lfloor>f64_div v 1000\<rfloor> < \<lfloor>v\<rfloor>"
proof -
  assume a: "1000 < v"
  have "f64_div v 1000 \<le> 2 * (v / 1000)"
    unfolding f64_div_def using a by (intro f64_round_le_double) simp
  also have "\<dots> \<le> v - 1" using a by simp
  finally have "f64_div v 1000 \<le> v - 1" .
  then have "\<lfloor>f64_div v 1000\<rfloor> \<le> \<lfloor>v - 1\<rfloor>" by (rule floor_mono)
  then show ?thesis by simp
qed

termination size_loop
proof (relation "measure (\<lambda>(v, i). nat \<lfloor>v\<rfloor>)")
  show "wf (measure (\<lambda>(v, i). nat \<lfloor>v\<rfloor>))" by simp
next
  fix v :: rat and i :: int
  assume a: "1000 < v"
  have "\<lfloor>f64_div v 1000\<rfloor> < \<lfloor>v\<rfloor>" using a by (rule f64_div_1000_floor)
  moreover have "0 < \<lfloor>v\<rfloor>" using a by simp
  ultimately have "nat \<lfloor>f64_div v 1000\<rfloor> < nat \<lfloor>v\<rfloor>" by linarith
  then show "((f64_div v 1000, i + 1), (v, i)) \<in> measure (\<lambda>(v, i). nat \<lfloor>v\<rfloor>)" by simp
qed

declare size_loop.simps [simp del]

text \<open>
  \<^verbatim>\<open>fmt.Sprintf("%.1f", v)\<close>: the decimal expansion of \<open>v\<close> rounded to one digit
  after the point, ties to even.
\<close>

definition fmt_f1 :: "rat \<Rightarrow> string" where
  "fmt_f1 v = (let t = rne (\<bar>v\<bar> * 10)
               in (if v < 0 then ''-'' else '''') @ digits (nat (t div 10)) @ ''.'' @ digits (nat (t mod 10)))"

definition units :: "string list" where
  "units = [''B'', ''KB'', ''MB'', ''GB'', ''TB'', ''PB'']"

definition FileSizeFormat :: "int \<Rightarrow> bool \<Rightarrow> go_panic + string" where
  "FileSizeFormat bytes forceBytes =
     (if forceBytes then Inr (FormatInt bytes @ '' B'')
      else case size_loop (f64_of_int bytes) 0 of
             (value, i) \<Rightarrow>
               if i < 0 \<or> int (length units) \<le> i then Inl IndexOutOfRange
               else Inr (fmt_f1 value @ '' '' @ units ! nat i))"

text \<open>Go's integer division panics on a zero divisor.\<close>

definition go_div :: "int \<Rightarrow> int \<Rightarrow> go_panic + int" where
  "go_div a b = (if b = 0 then Inl IntegerDivideByZero else Inr (quo a b))"

text \<open>
  The closure returned by \<^verbatim>\<open>MeasureTransferRate\<close>. Its first argument is the clock
  reading of the call, \<^verbatim>\<open>int64(time.Now().Sub(start).Seconds())\<close>: the whole seconds
  elapsed since \<^verbatim>\<open>MeasureTransferRate\<close> was called.
\<close>

definition MeasureTransferRate :: "int \<Rightarrow> int \<Rightarrow> go_panic + string" where
  "MeasureTransferRate seconds bytes =
     (if seconds < 1 then
        (case FileSizeFormat bytes False of Inl e \<Rightarrow> Inl e | Inr s \<Rightarrow> Inr (s @ ''/s''))
      else
        (case go_div bytes seconds of
           Inl e \<Rightarrow> Inl e
         | Inr bps \<Rightarrow>
             (case FileSizeFormat bps False of Inl e \<Rightarrow> Inl e | Inr s \<Rightarrow> Inr (s @ ''/s''))))"

lemmas size_eval = f64_eval f64_of_int_def f64_div_def size_loop.simps FileSizeFormat_def
  fmt_f1_def units_def digits.simps digit_char_def FormatInt_def

text \<open>The examples of the specification.\<close>

lemma FileSizeFormat_examples:
  "FileSizeFormat 0 False = Inr ''0.0 B''"
  "FileSizeFormat 1500 False = Inr ''1.5 KB''"
  "FileSizeFormat 999 True = Inr ''999 B''"
  by (simp_all add: size_eval)

lemma f64_round_powers_1000:
  "f64_round 1000 = 1000"
  "f64_round 1000000 = 1000000"
  "f64_round 1000000000 = 1000000000"
  "f64_round 1000000000000 = 1000000000000"
  "f64_round 1000000000000000 = 1000000000000000"
  "f64_round 1000000000000000000 = 1000000000000000000"
  by (simp_all add: f64_eval)

lemma f64_round_pow_1000: "j < 6 \<Longrightarrow> f64_round (1000 ^ Suc j) = 1000 ^ Suc j"
proof -
  assume "j < 6"
  then consider "j = 0" | "j = 1" | "j = 2" | "j = 3" | "j = 4" | "j = 5" by linarith
  then show ?thesis
    by cases (simp_all add: f64_round_powers_1000)
qed

lemma f64_div_1000_le:
  assumes "1000 < v" "v \<le> 1000 * y" "f64_round y = y"
  shows "f64_div v 1000 \<le> y"
  unfolding f64_div_def
proof (rule f64_round_le)
  show "1 \<le> v / 1000" using assms(1) by simp
  show "v / 1000 \<le> y" using assms(2) by simp
  show "f64_round y = y" by (rule assms(3))
qed

lemma f64_div_1000_nonneg: "0 \<le> v \<Longrightarrow> 0 \<le> f64_div v 1000"
  unfolding f64_div_def by (rule f64_round_nonneg) simp

lemma size_loop_bound:
  "k < 6 \<Longrightarrow> 0 \<le> v \<Longrightarrow> v \<le> 1000 ^ Suc k \<Longrightarrow>
   \<exists>v' i'. size_loop v i = (v', i') \<and> i \<le> i' \<and> i' \<le> i + int k \<and> 0 \<le> v' \<and> v' \<le> 1000"
proof (induction k arbitrary: v i)
  case 0
  then show ?case by (subst size_loop.simps) simp
next
  case (Suc k)
  show ?case
  proof (cases "1000 < v")
    case False
    then show ?thesis using Suc.prems by (subst size_loop.simps) simp
  next
    case True
    have k: "k < 6" using Suc.prems by simp
    have "f64_div v 1000 \<le> 1000 ^ Suc k"
      using True Suc.prems(3) f64_round_pow_1000[OF k] by (intro f64_div_1000_le) simp_all
    moreover have "0 \<le> f64_div v 1000" using Suc.prems(2) by (rule f64_div_1000_nonneg)
    ultimately obtain v' i' where
      h: "size_loop (f64_div v 1000) (i + 1) = (v', i')" "i + 1 \<le> i'" "i' \<le> i + 1 + int k"
         "0 \<le> v'" "v' \<le> 1000"
      using Suc.IH[OF k, of "f64_div v 1000" "i + 1"] by blast
    have "size_loop v i = (v', i')" using True h(1) by (subst size_loop.simps) simp
    then show ?thesis using h(2-5) by simp
  qed
qed

lemma f64_of_int_bound: "0 \<le> b \<Longrightarrow> b \<le> 10 ^ 18 \<Longrightarrow> 0 \<le> f64_of_int b \<and> f64_of_int b \<le> 1000 ^ Suc 5"
proof -
  assume a: "0 \<le> b" "b \<le> 10 ^ 18"
  have nn: "0 \<le> f64_of_int b" unfolding f64_of_int_def using a by (intro f64_round_nonneg) simp
  have "f64_of_int b \<le> 1000000000000000000"
  proof (cases "b = 0")
    case True
    then show ?thesis by (simp add: f64_of_int_def f64_round_def)
  next
    case False
    then have "1 \<le> b" using a by simp
    then have "(1::rat) \<le> of_int b" by simp
    moreover have "rat_of_int b \<le> of_int (10 ^ 18)" using a(2) by (simp only: of_int_le_iff)
    then have "rat_of_int b \<le> 1000000000000000000" by simp
    ultimately show ?thesis unfolding f64_of_int_def
      using f64_round_powers_1000(6) by (intro f64_round_le)
  qed
  then show ?thesis using nn by simp
qed

lemma rne_tenths_range: "0 \<le> v \<Longrightarrow> v \<le> 1000 \<Longrightarrow> 0 \<le> rne (\<bar>v\<bar> * 10) \<and> rne (\<bar>v\<bar> * 10) \<le> 10000"
proof -
  assume a: "0 \<le> v" "v \<le> 1000"
  have "0 \<le> rne (\<bar>v\<bar> * 10)" using a by (intro rne_nonneg) simp
  moreover have "rne (\<bar>v\<bar> * 10) \<le> 10000" using a by (intro rne_le_int) simp
  ultimately show ?thesis by simp
qed

text \<open>
  C1, amended: for every byte count \<open>b\<close> with \<open>0 \<le> b \<le> 10 ^ 18\<close>,
  \<open>FileSizeFormat b False\<close> returns a string made of a number, a space and one unit of
  \<open>B, KB, MB, GB, TB, PB\<close>; the scaled value is in the closed interval from 0 to 1000,
  and so is the number printed with one decimal (its tenths are between 0 and 10000).
\<close>

theorem FileSizeFormat_unit_range:
  "0 \<le> b \<Longrightarrow> b \<le> 10 ^ 18 \<Longrightarrow>
   \<exists>v i. size_loop (f64_of_int b) 0 = (v, i) \<and> 0 \<le> i \<and> i < 6 \<and> 0 \<le> v \<and> v \<le> 1000 \<and>
         units ! nat i \<in> set units \<and>
         FileSizeFormat b False = Inr (fmt_f1 v @ '' '' @ units ! nat i) \<and>
         0 \<le> rne (\<bar>v\<bar> * 10) \<and> rne (\<bar>v\<bar> * 10) \<le> 10000"
proof -
  assume a: "0 \<le> b" "b \<le> 10 ^ 18"
  have "0 \<le> f64_of_int b" "f64_of_int b \<le> 1000 ^ Suc 5" using f64_of_int_bound[OF a] by simp_all
  then obtain v i where
    h: "size_loop (f64_of_int b) 0 = (v, i)" "0 \<le> i" "i \<le> 0 + int 5" "0 \<le> v" "v \<le> 1000"
    using size_loop_bound[of 5 "f64_of_int b" 0] by auto
  have i: "i < 6" using h(3) by simp
  have n: "nat i < length units" using h(2) i by (simp add: units_def)
  have "FileSizeFormat b False = Inr (fmt_f1 v @ '' '' @ units ! nat i)"
    using h(1,2) i by (simp add: FileSizeFormat_def units_def)
  moreover have "units ! nat i \<in> set units" using n by (rule nth_mem)
  ultimately show ?thesis using h i rne_tenths_range[OF h(4,5)] by blast
qed

theorem FileSizeFormat_unit_range_witness:
  "(0::int) \<le> 1500 \<and> (1500::int) \<le> 10 ^ 18 \<and>
   (\<exists>v i. size_loop (f64_of_int 1500) 0 = (v, i) \<and> 0 \<le> i \<and> i < 6 \<and> 0 \<le> v \<and> v \<le> 1000 \<and>
         units ! nat i \<in> set units \<and>
         FileSizeFormat 1500 False = Inr (fmt_f1 v @ '' '' @ units ! nat i) \<and>
         0 \<le> rne (\<bar>v\<bar> * 10) \<and> rne (\<bar>v\<bar> * 10) \<le> 10000) \<and>
   FileSizeFormat 1500 False = Inr ''1.5 KB''"
proof -
  have "FileSizeFormat 1500 False = Inr ''1.5 KB''" by (simp add: size_eval)
  then show ?thesis using FileSizeFormat_unit_range[of 1500] by simp
qed

text \<open>
  The half-open interval of the specification fails at 1000 bytes: the loop divides only
  while the value is greater than 1000, so 1000 stays in the tier \<open>B\<close>, which is not
  the top tier, with the numeric part 1000.
\<close>

theorem FileSizeFormat_1000:
  "is_int64 1000 \<and> (0::int) \<le> 1000 \<and> size_loop (f64_of_int 1000) 0 = (1000, 0) \<and>
   units ! nat 0 = ''B'' \<and> units ! nat 0 \<noteq> ''PB'' \<and> \<not> (1000::rat) < 1000 \<and>
   FileSizeFormat 1000 False = Inr ''1000.0 B''"
  by (simp add: is_int64_def size_eval)

text \<open>
  Above \<open>10 ^ 18\<close> the loop runs a sixth time and \<^verbatim>\<open>units[6]\<close> is out of range.
\<close>

lemma FileSizeFormat_large_panics:
  "is_int64 (2 * 10 ^ 18) \<and> FileSizeFormat (2 * 10 ^ 18) False = Inl IndexOutOfRange"
  by (simp add: is_int64_def size_eval)

text \<open>
  One decimal can round up to 1000: 999960 bytes are 999.96 KB, printed as 1000.0 KB.
\<close>

lemma FileSizeFormat_rounds_to_1000: "FileSizeFormat 999960 False = Inr ''1000.0 KB''"
  by (simp add: size_eval)

lemma FileSizeFormat_no_div_zero: "FileSizeFormat b f \<noteq> Inl IntegerDivideByZero"
  by (simp add: FileSizeFormat_def split: prod.splits)

lemma MeasureTransferRate_no_div_zero:
  "MeasureTransferRate seconds bytes \<noteq> Inl IntegerDivideByZero"
proof (cases "seconds < 1")
  case True
  then show ?thesis
    using FileSizeFormat_no_div_zero[of bytes False]
    by (auto simp: MeasureTransferRate_def split: sum.splits)
next
  case False
  then have "go_div bytes seconds = Inr (quo bytes seconds)" by (simp add: go_div_def)
  then show ?thesis
    using False FileSizeFormat_no_div_zero[of "quo bytes seconds" False]
    by (auto simp: MeasureTransferRate_def split: sum.splits)
qed

text \<open>
  C6: while the elapsed time is under one whole second, the rate function does not
  divide: for every byte count its result is the formatted cumulative size followed by
  \<open>/s\<close>, it is never the division-by-zero panic, and for 0 bytes it is \<open>0.0 B/s\<close>.
\<close>

theorem MeasureTransferRate_first_second:
  "seconds < 1 \<Longrightarrow>
   MeasureTransferRate seconds bytes
     = (case FileSizeFormat bytes False of Inl e \<Rightarrow> Inl e | Inr s \<Rightarrow> Inr (s @ ''/s'')) \<and>
   MeasureTransferRate seconds bytes \<noteq> Inl IntegerDivideByZero \<and>
   MeasureTransferRate seconds 0 = Inr ''0.0 B/s''"
proof -
  assume a: "seconds < 1"
  have z: "FileSizeFormat 0 False = Inr ''0.0 B''" by (simp add: size_eval)
  have e: "\<And>n. MeasureTransferRate seconds n
     = (case FileSizeFormat n False of Inl e \<Rightarrow> Inl e | Inr s \<Rightarrow> Inr (s @ ''/s''))"
    using a by (simp add: MeasureTransferRate_def)
  have "MeasureTransferRate seconds bytes \<noteq> Inl IntegerDivideByZero"
    unfolding e using FileSizeFormat_no_div_zero[of bytes False] by (auto split: sum.splits)
  then show ?thesis using e z by simp
qed

theorem MeasureTransferRate_first_second_witness:
  "(0::int) < 1 \<and> MeasureTransferRate 0 0 = Inr ''0.0 B/s'' \<and>
   MeasureTransferRate 0 0 \<noteq> Inl IntegerDivideByZero"
proof -
  have p: "(0::int) < 1" by simp
  note h = MeasureTransferRate_first_second[OF p, of 0]
  show ?thesis using p h by blast
qed

section \<open>Runs: effects, exits and panics\<close>

text \<open>
  A Go \<^verbatim>\<open>error\<close> value is modelled by its message. A call whose pointer result the
  program reads returns a pair of options here, \<open>None\<close> for \<^verbatim>\<open>nil\<close>, so that a
  \<^verbatim>\<open>nil\<close> result with or without an error can be told apart; a call whose result is
  only passed on returns its error alone.
\<close>

type_synonym go_error = string

record oauth2_Token =
  AccessToken :: string
  TokenType :: string
  RefreshToken :: string
  Expiry :: int

record os_User =
  HomeDir :: string

record drive_File =
  FileId :: string
  Title :: string
  Description :: string
  MimeType :: string
  Parents :: "string list"
  FileSize :: int
  DownloadUrl :: string

datatype http_Client = Client "oauth2_Token option"

text \<open>
  The observable steps of a run, in order: what is written to standard output, and every
  call that leaves the program (files, standard input, the OAuth endpoint, the remote
  catalog). \<open>Printf\<close> keeps the format string and the rendered arguments.
\<close>

datatype event =
    Printf string "string list"
  | Println string
  | Print string
  | LogFatalf string "string list"
  | UserCurrent
  | MkdirAll string
  | OsOpen string
  | OsCreate string
  | FileStat string
  | FileClose string
  | JsonDecode string
  | JsonEncode string "oauth2_Token option"
  | ScanStdin
  | Exchange string
  | ReadFile string
  | ConfigFromJSON string
  | DriveNew
  | FilesList "string option" nat
  | FilesInsert drive_File
  | FilesInsertMedia drive_File int string

text \<open>
  A run ends by returning a value, by \<^verbatim>\<open>os.Exit\<close> with a status (\<^verbatim>\<open>log.Fatalf\<close>
  exits with status 1), or by a panic.
\<close>

datatype 'a outcome = Return 'a | Exit nat | Panic go_panic

type_synonym 'a run = "event list \<times> 'a outcome"

definition ret :: "'a \<Rightarrow> 'a run" where
  "ret a = ([], Return a)"

definition emit :: "event \<Rightarrow> unit run" where
  "emit e = ([e], Return ())"

definition panic :: "go_panic \<Rightarrow> 'a run" where
  "panic p = ([], Panic p)"

definition fatalf :: "string \<Rightarrow> string list \<Rightarrow> 'a run" where
  "fatalf fmt args = ([LogFatalf fmt args], Exit 1)"

definition run_bind :: "'a run \<Rightarrow> ('a \<Rightarrow> 'b run) \<Rightarrow> 'b run" where
  "run_bind m f =
     (case m of
        (tr, Return a) \<Rightarrow> (case f a of (tr', r) \<Rightarrow> (tr @ tr', r))
      | (tr, Exit n) \<Rightarrow> (tr, Exit n)
      | (tr, Panic p) \<Rightarrow> (tr, Panic p))"

definition lift_panic :: "go_panic + 'a \<Rightarrow> 'a run" where
  "lift_panic x = (case x of Inl p \<Rightarrow> panic p | Inr a \<Rightarrow> ret a)"

text \<open>The process exit status of a run of \<^verbatim>\<open>main\<close>; a panic exits with status 2.\<close>

definition exit_status :: "unit outcome \<Rightarrow> nat" where
  "exit_status r = (case r of Return _ \<Rightarrow> 0 | Exit n \<Rightarrow> n | Panic _ \<Rightarrow> 2)"

text \<open>
  The world outside the program: the answer of every external call. The fields of the
  command line hold the flag values after \<^verbatim>\<open>flag.Parse\<close>. The transfer answers with
  the calls it makes to the progress callback, each with the clock reading (whole seconds
  since the start of the upload) at that call, and its result.
\<close>

record world =
  flag_inputPath :: string
  flag_outputFile :: string
  flag_folderName :: string
  user_Current :: "os_User option \<times> go_error option"
  os_Open :: "string \<Rightarrow> go_error option"
  os_Create :: "string \<Rightarrow> go_error option"
  file_Stat :: "string \<Rightarrow> int option \<times> go_error option"
  json_Decode :: "string \<Rightarrow> oauth2_Token \<times> go_error option"
  config_AuthCodeURL :: string
  fmt_Scan :: "string \<times> go_error option"
  config_Exchange :: "string \<Rightarrow> oauth2_Token option \<times> go_error option"
  ioutil_ReadFile :: "string \<Rightarrow> string \<times> go_error option"
  google_ConfigFromJSON :: "string \<Rightarrow> go_error option"
  drive_New :: "go_error option"
  filepath_Base :: "string \<Rightarrow> string"
  filepath_Ext :: "string \<Rightarrow> string"
  mime_TypeByExtension :: "string \<Rightarrow> string"
  Files_List :: "string option \<Rightarrow> nat \<Rightarrow> drive_File list option \<times> go_error option"
  Files_Insert :: "drive_File \<Rightarrow> drive_File option \<times> go_error option"
  Files_Insert_Media ::
    "drive_File \<Rightarrow> int \<Rightarrow> string \<Rightarrow> (int \<times> int \<times> int) list \<times> drive_File option \<times> go_error option"
  seconds_at_end :: int

definition nl :: string where
  "nl = [CHR 0x0A]"

definition cr :: string where
  "cr = [CHR 0x0D]"

definition dq :: string where
  "dq = [CHR 0x22]"

definition sq :: string where
  "sq = [CHR 0x27]"

section \<open>Credentials\<close>

text \<open>
  The path of the cached token, \<^verbatim>\<open>filepath.Join(".credentials",
  url.QueryEscape("drive-api-cert.json"))\<close>: the escape leaves the name as it is.
\<close>

definition cache_path :: string where
  "cache_path = ''.credentials/drive-api-cert.json''"

definition auth_prompt :: string where
  "auth_prompt = ''Go to the following link in your browser then type the ''
                 @ ''authorization code: '' @ nl @ ''%v'' @ nl"

definition tokenCacheFile :: "world \<Rightarrow> (string \<times> go_error option) run" where
  "tokenCacheFile w =
     run_bind (emit UserCurrent) (\<lambda>_.
     case user_Current w of
       (usr, Some err) \<Rightarrow>
         (case usr of None \<Rightarrow> panic NilDereference | Some u \<Rightarrow> ret (HomeDir u, Some err))
     | (usr, None) \<Rightarrow>
         run_bind (emit (MkdirAll ''.credentials'')) (\<lambda>_.
         ret (cache_path, None)))"

definition tokenFromFile :: "world \<Rightarrow> string \<Rightarrow> (oauth2_Token option \<times> go_error option) run" where
  "tokenFromFile w file =
     run_bind (emit (OsOpen file)) (\<lambda>_.
     case os_Open w file of
       Some err \<Rightarrow> ret (None, Some err)
     | None \<Rightarrow>
         run_bind (emit (JsonDecode file)) (\<lambda>_.
         case json_Decode w file of
           (t, err) \<Rightarrow> run_bind (emit (FileClose file)) (\<lambda>_. ret (Some t, err))))"

definition getTokenFromWeb :: "world \<Rightarrow> oauth2_Token option run" where
  "getTokenFromWeb w =
     run_bind (emit (Printf auth_prompt [config_AuthCodeURL w])) (\<lambda>_.
     run_bind (emit (Printf (''Enter Verfication Code:'' @ nl) [])) (\<lambda>_.
     run_bind (emit ScanStdin) (\<lambda>_.
     case fmt_Scan w of
       (code, Some err) \<Rightarrow> fatalf ''Unable to read authorization code %v'' [err]
     | (code, None) \<Rightarrow>
         run_bind (emit (Exchange code)) (\<lambda>_.
         case config_Exchange w code of
           (tok, Some err) \<Rightarrow> fatalf ''Unable to retrieve token from web %v'' [err]
         | (tok, None) \<Rightarrow> ret tok))))"

definition saveToken :: "world \<Rightarrow> string \<Rightarrow> oauth2_Token option \<Rightarrow> unit run" where
  "saveToken w file token =
     run_bind (emit (Printf (''Saving credential file to: %s'' @ nl) [file])) (\<lambda>_.
     run_bind (emit (OsCreate file)) (\<lambda>_.
     case os_Create w file of
       Some err \<Rightarrow> fatalf ''Unable to cache oauth token: %v'' [err]
     | None \<Rightarrow>
         run_bind (emit (JsonEncode file token)) (\<lambda>_.
         emit (FileClose file))))"

definition getClient :: "world \<Rightarrow> http_Client run" where
  "getClient w =
     run_bind (tokenCacheFile w) (\<lambda>(cacheFile, err).
     case err of
       Some e \<Rightarrow> fatalf ''Unable to get path to cached credential file. %v'' [e]
     | None \<Rightarrow>
         run_bind (tokenFromFile w cacheFile) (\<lambda>(tok, err).
         case err of
           Some _ \<Rightarrow>
             run_bind (getTokenFromWeb w) (\<lambda>tok.
             run_bind (saveToken w cacheFile tok) (\<lambda>_.
             ret (Client tok)))
         | None \<Rightarrow> ret (Client tok)))"

section \<open>Folder resolution and upload\<close>

definition folder_mime :: string where
  "folder_mime = ''application/vnd.google-apps.folder''"

definition folder_query :: "string \<Rightarrow> string" where
  "folder_query folderName =
     ''title='' @ dq @ folderName @ dq @ '' and mimeType='' @ dq @ folder_mime @ dq"

definition new_File :: "string \<Rightarrow> string \<Rightarrow> string \<Rightarrow> drive_File" where
  "new_File title description mimeType =
     \<lparr>FileId = '''', Title = title, Description = description, MimeType = mimeType,
      Parents = [], FileSize = 0, DownloadUrl = ''''\<rparr>"

definition getOrCreateFolder :: "world \<Rightarrow> string \<Rightarrow> string run" where
  "getOrCreateFolder w folderName =
     (if folderName = '''' then ret ''''
      else
        run_bind (emit (FilesList (Some (folder_query folderName)) 1)) (\<lambda>_.
        case Files_List w (Some (folder_query folderName)) 1 of
          (r, Some err) \<Rightarrow> fatalf ''Unable to retrieve foldername.'' [err]
        | (None, None) \<Rightarrow> panic NilDereference
        | (Some items, None) \<Rightarrow>
            if length items > 0 then ret (FileId (items ! 0))
            else
              run_bind (emit (Printf (''Folder not found. Create new folder : %s'' @ nl)
                          [folderName])) (\<lambda>_.
              run_bind (emit (FilesInsert
                          (new_File folderName ''Auto Create by gdrive-upload'' folder_mime))) (\<lambda>_.
              case Files_Insert w (new_File folderName ''Auto Create by gdrive-upload'' folder_mime) of
                (r, err) \<Rightarrow>
                  run_bind (case err of
                              Some e \<Rightarrow> emit (Printf (''An error occurred when create folder: %v''
                                                    @ nl) [e])
                            | None \<Rightarrow> ret ()) (\<lambda>_.
                  case r of None \<Rightarrow> panic NilDereference | Some f \<Rightarrow> ret (FileId f))))))"

text \<open>
  The progress callback of \<^verbatim>\<open>uploadFile\<close>, with the clock reading of the call. The
  arguments of \<^verbatim>\<open>Printf\<close> are evaluated from left to right; a panic in one of them
  leaves the callback, and the upload, at once.
\<close>

definition progress_format :: string where
  "progress_format = ''Uploaded at %s, %s/%s'' @ cr"

definition showProgress :: "int \<Rightarrow> int \<Rightarrow> int \<Rightarrow> unit run" where
  "showProgress seconds current total' =
     run_bind (lift_panic (MeasureTransferRate seconds current)) (\<lambda>rate.
     run_bind (lift_panic (Comma current)) (\<lambda>c.
     run_bind (lift_panic (Comma total')) (\<lambda>t.
     emit (Printf progress_format [rate, c, t]))))"

fun run_progress :: "(int \<times> int \<times> int) list \<Rightarrow> unit run" where
  "run_progress [] = ret ()"
| "run_progress ((current, total', seconds) # calls) =
     run_bind (showProgress seconds current total') (\<lambda>_. run_progress calls)"

definition uploadFile ::
  "world \<Rightarrow> string \<Rightarrow> string \<Rightarrow> string \<Rightarrow> string \<Rightarrow> string \<Rightarrow>
   (drive_File option \<times> go_error option) run" where
  "uploadFile w title description parentName mimeType filename =
     run_bind (emit (OsOpen filename)) (\<lambda>_.
     case os_Open w filename of
       Some err \<Rightarrow>
         run_bind (emit (Printf (''An error occurred: %v'' @ nl) [err])) (\<lambda>_.
         ret (None, Some err))
     | None \<Rightarrow>
         run_bind (emit (FileStat filename)) (\<lambda>_.
         case file_Stat w filename of
           (inputInfo, Some err) \<Rightarrow> ret (None, Some err)
         | (inputInfo, None) \<Rightarrow>
             run_bind (getOrCreateFolder w parentName) (\<lambda>parentId.
             run_bind (emit (Println ''Start upload'')) (\<lambda>_.
             let f = (new_File title description mimeType)
                       \<lparr>Parents := (if parentId \<noteq> '''' then [parentId] else [])\<rparr>
             in case inputInfo of
                  None \<Rightarrow> panic NilDereference
                | Some sz \<Rightarrow>
                    run_bind (emit (FilesInsertMedia f sz mimeType)) (\<lambda>_.
                    case Files_Insert_Media w f sz mimeType of
                      (calls, r, err) \<Rightarrow>
                        run_bind (run_progress calls) (\<lambda>_.
                        case err of
                          Some e \<Rightarrow>
                            run_bind (emit (Printf (''An error occurred: %v'' @ nl) [e])) (\<lambda>_.
                            ret (None, Some e))
                        | None \<Rightarrow>
                            (case r of
                               None \<Rightarrow> panic NilDereference
                             | Some r' \<Rightarrow>
                                 run_bind (lift_panic (MeasureTransferRate (seconds_at_end w)
                                             (FileSize r'))) (\<lambda>rate.
                                 run_bind (lift_panic (FileSizeFormat (FileSize r') False)) (\<lambda>sizeText.
                                 run_bind (emit (Printf (''Uploaded '' @ sq @ ''%s'' @ sq
                                             @ '' at %s, total %s'' @ nl)
                                             [Title r', rate, sizeText])) (\<lambda>_.
                                 run_bind (emit (Printf (''Upload Done. ID : %s'' @ nl)
                                             [FileId r'])) (\<lambda>_.
                                 ret (Some r', None))))))))))))"

section \<open>main\<close>

text \<open>
  \<^verbatim>\<open>main\<close> in three parts: everything before the call of \<^verbatim>\<open>uploadFile\<close>, which
  yields the title and the MIME type of the upload; the call itself, whose two results
  \<^verbatim>\<open>main\<close> discards; and the listing of the catalog after it.
\<close>

definition main_before_upload :: "world \<Rightarrow> (string \<times> string) run" where
  "main_before_upload w =
     run_bind (emit (ReadFile ''client_secret.json'')) (\<lambda>_.
     case ioutil_ReadFile w ''client_secret.json'' of
       (b, Some err) \<Rightarrow> fatalf ''Unable to read client secret file: %v'' [err]
     | (b, None) \<Rightarrow>
         run_bind (emit (ConfigFromJSON b)) (\<lambda>_.
         case google_ConfigFromJSON w b of
           Some err \<Rightarrow> fatalf ''Unable to parse client secret file to config: %v'' [err]
         | None \<Rightarrow>
             run_bind (getClient w) (\<lambda>client.
             run_bind (emit DriveNew) (\<lambda>_.
             case drive_New w of
               Some err \<Rightarrow> fatalf ''Unable to retrieve drive Client %v'' [err]
             | None \<Rightarrow>
                 run_bind (emit (Printf (''Read file: %s'' @ nl) [flag_inputPath w])) (\<lambda>_.
                 let outputTitle = (if flag_outputFile w = '''' then filepath_Base w (flag_inputPath w)
                                    else flag_outputFile w)
                 in run_bind (emit (Printf (''Output name: %s'' @ nl) [outputTitle])) (\<lambda>_.
                    let ext = filepath_Ext w (flag_inputPath w);
                        mimeType0 = (if ext \<noteq> '''' then mime_TypeByExtension w ext
                                     else ''application/octet-stream'');
                        mimeType = (if mimeType0 = '''' then ''application/octet-stream''
                                    else mimeType0)
                    in run_bind (emit (Printf (''Mime : %s'' @ nl) [mimeType])) (\<lambda>_.
                       ret (outputTitle, mimeType))))))))"

fun print_items :: "drive_File list \<Rightarrow> unit run" where
  "print_items [] = ret ()"
| "print_items (i # items) =
     run_bind (emit (Printf (''%s (%s)-(%s)'' @ nl) [Title i, FileId i, DownloadUrl i])) (\<lambda>_.
     print_items items)"

definition main_after_upload :: "world \<Rightarrow> unit run" where
  "main_after_upload w =
     run_bind (emit (FilesList None 10)) (\<lambda>_.
     case Files_List w None 10 of
       (r, Some err) \<Rightarrow> fatalf ''Unable to retrieve files.'' [err]
     | (None, None) \<Rightarrow> panic NilDereference
     | (Some items, None) \<Rightarrow>
         run_bind (emit (Println ''Files:'')) (\<lambda>_.
         if length items > 0 then print_items items
         else emit (Print ''No files found.'')))"

definition main :: "world \<Rightarrow> unit run" where
  "main w =
     run_bind (main_before_upload w) (\<lambda>(outputTitle, mimeType).
     run_bind (uploadFile w outputTitle '''' (flag_folderName w) mimeType (flag_inputPath w)) (\<lambda>_.
     main_after_upload w))"

section \<open>Properties of the runs\<close>

lemma run_bind_Return: "run_bind (tr, Return a) f = (tr @ fst (f a), snd (f a))"
  by (simp add: run_bind_def split: prod.splits)

lemma run_bind_Exit: "run_bind (tr, Exit n) f = (tr, Exit n)"
  by (simp add: run_bind_def)

lemma run_bind_Panic: "run_bind (tr, Panic p) f = (tr, Panic p)"
  by (simp add: run_bind_def)

lemma run_bind_emit: "run_bind (emit e) f = (e # fst (f ()), snd (f ()))"
  by (simp add: emit_def run_bind_Return)

lemma run_bind_ret: "run_bind (ret a) f = f a"
  by (simp add: ret_def run_bind_Return)

lemma run_bind_panic: "run_bind (panic p) f = ([], Panic p)"
  by (simp add: panic_def run_bind_Panic)

lemma run_bind_fatalf: "run_bind (fatalf fmt args) f = ([LogFatalf fmt args], Exit 1)"
  by (simp add: fatalf_def run_bind_Exit)

lemmas run_simps = run_bind_Return run_bind_Exit run_bind_Panic run_bind_emit run_bind_ret
  run_bind_panic run_bind_fatalf

lemmas run_atoms = ret_def emit_def panic_def fatalf_def

text \<open>
  A concrete world: a cached token, an empty remote catalog, every call succeeds, and the
  upload of an empty file reports progress once.
\<close>

definition token0 :: oauth2_Token where
  "token0 = \<lparr>AccessToken = ''ya29.a0'', TokenType = ''Bearer'', RefreshToken = ''1//0g'', Expiry = 0\<rparr>"

definition world0 :: world where
  "world0 =
     \<lparr>flag_inputPath = ''./index.html'', flag_outputFile = '''', flag_folderName = ''./user1'',
      user_Current = (Some \<lparr>HomeDir = ''/home/u''\<rparr>, None),
      os_Open = (\<lambda>_. None),
      os_Create = (\<lambda>_. None),
      file_Stat = (\<lambda>_. (Some 0, None)),
      json_Decode = (\<lambda>_. (token0, None)),
      config_AuthCodeURL = ''https://accounts.google.com/o/oauth2/auth'',
      fmt_Scan = (''4/0Ab'', None),
      config_Exchange = (\<lambda>_. (Some token0, None)),
      ioutil_ReadFile = (\<lambda>_. (''{}'', None)),
      google_ConfigFromJSON = (\<lambda>_. None),
      drive_New = None,
      filepath_Base = (\<lambda>_. ''index.html''),
      filepath_Ext = (\<lambda>_. ''.html''),
      mime_TypeByExtension = (\<lambda>_. ''text/html''),
      Files_List = (\<lambda>q n. (Some [], None)),
      Files_Insert = (\<lambda>f. (Some (f\<lparr>FileId := ''folder1''\<rparr>), None)),
      Files_Insert_Media = (\<lambda>f sz m. ([(0, 0, 0)], Some (f\<lparr>FileId := ''file1'', FileSize := sz\<rparr>), None)),
      seconds_at_end = 0\<rparr>"

text \<open>
  C10: when the lookup of the current user fails, \<open>tokenCacheFile\<close> reads
  \<^verbatim>\<open>usr.HomeDir\<close> to build its result. Where the returned user is \<^verbatim>\<open>nil\<close> this is
  a nil dereference: the function panics and its caller never sees the error. Where it is
  not, the result is the home directory together with the error.
\<close>

theorem tokenCacheFile_lookup_fails:
  "user_Current w = (usr, Some err) \<Longrightarrow>
   tokenCacheFile w =
     (case usr of
        None \<Rightarrow> ([UserCurrent], Panic NilDereference)
      | Some u \<Rightarrow> ([UserCurrent], Return (HomeDir u, Some err)))"
  by (simp add: tokenCacheFile_def run_simps run_atoms split: option.splits)

theorem tokenCacheFile_lookup_fails_witness:
  "user_Current (world0\<lparr>user_Current := (None, Some ''user: unknown userid 1000'')\<rparr>)
     = (None, Some ''user: unknown userid 1000'') \<and>
   tokenCacheFile (world0\<lparr>user_Current := (None, Some ''user: unknown userid 1000'')\<rparr>)
     = ([UserCurrent], Panic NilDereference)"
  using tokenCacheFile_lookup_fails
    [of "world0\<lparr>user_Current := (None, Some ''user: unknown userid 1000'')\<rparr>"
        None "''user: unknown userid 1000''"]
  by simp

text \<open>
  The events of the interactive flow: the authorization link written to standard output
  and the read from standard input. The requests sent to the remote catalog.
\<close>

fun is_interactive :: "event \<Rightarrow> bool" where
  "is_interactive ScanStdin = True"
| "is_interactive (Printf fmt args) = (fmt = auth_prompt)"
| "is_interactive _ = False"

fun is_remote :: "event \<Rightarrow> bool" where
  "is_remote (FilesList q n) = True"
| "is_remote (FilesInsert f) = True"
| "is_remote (FilesInsertMedia f sz m) = True"
| "is_remote _ = False"

lemma tokenCacheFile_ok:
  "user_Current w = (usr, None) \<Longrightarrow>
   tokenCacheFile w = ([UserCurrent, MkdirAll ''.credentials''], Return (cache_path, None))"
  by (simp add: tokenCacheFile_def run_simps run_atoms)

lemma tokenCacheFile_not_interactive: "\<not> list_ex is_interactive (fst (tokenCacheFile w))"
  by (cases "user_Current w")
     (auto simp: tokenCacheFile_def run_simps run_atoms split: option.splits)

lemma tokenCacheFile_path:
  "tokenCacheFile w = (tr, Return (file, None)) \<Longrightarrow> file = cache_path"
  by (cases "user_Current w")
     (auto simp: tokenCacheFile_def run_simps run_atoms split: option.splits)

lemma getTokenFromWeb_starts:
  "\<exists>tr. fst (getTokenFromWeb w)
     = [Printf auth_prompt [config_AuthCodeURL w], Printf (''Enter Verfication Code:'' @ nl) [],
        ScanStdin] @ tr"
  by (cases "fmt_Scan w"; cases "config_Exchange w (fst (fmt_Scan w))")
     (auto simp: getTokenFromWeb_def run_simps run_atoms split: option.splits)

text \<open>
  C7: when the cache file opens and decodes to a token, no run of \<open>getClient\<close> prints
  the authorization link or reads standard input, and where the path of the cache is
  obtained the client is built from the cached token after the five steps of the load.
  When the load is attempted and fails, because the file cannot be opened or because its
  content cannot be decoded, the failure is not fatal: the run goes on with the
  authorization link, the prompt and the read from standard input.
\<close>

theorem getClient_cache:
  "(os_Open w cache_path = None \<and> json_Decode w cache_path = (t, None) \<longrightarrow>
      \<not> list_ex is_interactive (fst (getClient w))) \<and>
   (user_Current w = (usr, None) \<and> os_Open w cache_path = None \<and>
    json_Decode w cache_path = (t, None) \<longrightarrow>
      getClient w =
        ([UserCurrent, MkdirAll ''.credentials'', OsOpen cache_path, JsonDecode cache_path,
          FileClose cache_path], Return (Client (Some t)))) \<and>
   (user_Current w = (usr, None) \<and> os_Open w cache_path = Some e \<longrightarrow>
      (\<exists>tr. fst (getClient w) =
         [UserCurrent, MkdirAll ''.credentials'', OsOpen cache_path,
          Printf auth_prompt [config_AuthCodeURL w], Printf (''Enter Verfication Code:'' @ nl) [],
          ScanStdin] @ tr)) \<and>
   (user_Current w = (usr, None) \<and> os_Open w cache_path = None \<and>
    json_Decode w cache_path = (t, Some e) \<longrightarrow>
      (\<exists>tr. fst (getClient w) =
         [UserCurrent, MkdirAll ''.credentials'', OsOpen cache_path, JsonDecode cache_path,
          FileClose cache_path,
          Printf auth_prompt [config_AuthCodeURL w], Printf (''Enter Verfication Code:'' @ nl) [],
          ScanStdin] @ tr))"
proof (intro conjI impI)
  assume a: "os_Open w cache_path = None \<and> json_Decode w cache_path = (t, None)"
  obtain tr r where tc: "tokenCacheFile w = (tr, r)" by (cases "tokenCacheFile w")
  have ni: "\<not> list_ex is_interactive tr" using tokenCacheFile_not_interactive[of w] tc by simp
  show "\<not> list_ex is_interactive (fst (getClient w))"
  proof (cases r)
    case (Return x)
    obtain path err where x: "x = (path, err)" by (cases x)
    show ?thesis
    proof (cases err)
      case None
      then have "path = cache_path" using tc Return x tokenCacheFile_path by simp
      then show ?thesis using a tc Return x None ni
        by (simp add: getClient_def tokenFromFile_def run_simps run_atoms)
    next
      case (Some e')
      then show ?thesis using tc Return x ni
        by (simp add: getClient_def run_simps run_atoms)
    qed
  next
    case (Exit n)
    then show ?thesis using tc ni by (simp add: getClient_def run_simps)
  next
    case (Panic p)
    then show ?thesis using tc ni by (simp add: getClient_def run_simps)
  qed
next
  assume "user_Current w = (usr, None) \<and> os_Open w cache_path = None \<and>
    json_Decode w cache_path = (t, None)"
  then show "getClient w =
        ([UserCurrent, MkdirAll ''.credentials'', OsOpen cache_path, JsonDecode cache_path,
          FileClose cache_path], Return (Client (Some t)))"
    by (simp add: getClient_def tokenCacheFile_ok tokenFromFile_def run_simps run_atoms)
next
  assume a: "user_Current w = (usr, None) \<and> os_Open w cache_path = Some e"
  obtain tr where g: "fst (getTokenFromWeb w)
     = [Printf auth_prompt [config_AuthCodeURL w], Printf (''Enter Verfication Code:'' @ nl) [],
        ScanStdin] @ tr"
    using getTokenFromWeb_starts by blast
  obtain tw rw where w: "getTokenFromWeb w = (tw, rw)" by (cases "getTokenFromWeb w")
  have "\<exists>tr'. fst (getClient w) = [UserCurrent, MkdirAll ''.credentials'', OsOpen cache_path] @ tw @ tr'"
    using a w
    by (cases rw)
       (simp_all add: getClient_def tokenCacheFile_ok tokenFromFile_def run_simps run_atoms)
  then show "\<exists>tr. fst (getClient w) =
         [UserCurrent, MkdirAll ''.credentials'', OsOpen cache_path,
          Printf auth_prompt [config_AuthCodeURL w], Printf (''Enter Verfication Code:'' @ nl) [],
          ScanStdin] @ tr"
    using g w by auto
next
  assume a: "user_Current w = (usr, None) \<and> os_Open w cache_path = None \<and>
    json_Decode w cache_path = (t, Some e)"
  obtain tr where g: "fst (getTokenFromWeb w)
     = [Printf auth_prompt [config_AuthCodeURL w], Printf (''Enter Verfication Code:'' @ nl) [],
        ScanStdin] @ tr"
    using getTokenFromWeb_starts by blast
  obtain tw rw where w: "getTokenFromWeb w = (tw, rw)" by (cases "getTokenFromWeb w")
  have "\<exists>tr'. fst (getClient w) = [UserCurrent, MkdirAll ''.credentials'', OsOpen cache_path,
          JsonDecode cache_path, FileClose cache_path] @ tw @ tr'"
    using a w
    by (cases rw)
       (simp_all add: getClient_def tokenCacheFile_ok tokenFromFile_def run_simps run_atoms)
  then show "\<exists>tr. fst (getClient w) =
         [UserCurrent, MkdirAll ''.credentials'', OsOpen cache_path, JsonDecode cache_path,
          FileClose cache_path,
          Printf auth_prompt [config_AuthCodeURL w], Printf (''Enter Verfication Code:'' @ nl) [],
          ScanStdin] @ tr"
    using g w by auto
qed

fun is_progress :: "event \<Rightarrow> bool" where
  "is_progress (Printf fmt args) = (fmt = progress_format)"
| "is_progress _ = False"

lemma progress_format_neq: "''An error occurred: %v'' @ nl \<noteq> progress_format"
  by (simp add: progress_format_def nl_def cr_def)

text \<open>
  C9: when the local file cannot be opened, or its size cannot be determined after it was
  opened, \<open>uploadFile\<close> returns the error at once. The run consists of the open (and
  the diagnostic) or of the open and the stat: no folder is resolved, no request is sent
  and the progress callback is never called.
\<close>

theorem uploadFile_unreadable:
  "(os_Open w filename = Some e \<longrightarrow>
      uploadFile w title description parentName mimeType filename
        = ([OsOpen filename, Printf (''An error occurred: %v'' @ nl) [e]], Return (None, Some e))) \<and>
   (os_Open w filename = None \<and> file_Stat w filename = (info, Some e) \<longrightarrow>
      uploadFile w title description parentName mimeType filename
        = ([OsOpen filename, FileStat filename], Return (None, Some e))) \<and>
   ((os_Open w filename = Some e \<or>
     (os_Open w filename = None \<and> file_Stat w filename = (info, Some e))) \<longrightarrow>
      \<not> list_ex is_remote (fst (uploadFile w title description parentName mimeType filename)) \<and>
      \<not> list_ex is_progress (fst (uploadFile w title description parentName mimeType filename)))"
  by (auto simp: uploadFile_def run_simps run_atoms progress_format_neq[simplified])

theorem uploadFile_unreadable_witness:
  "os_Open (world0\<lparr>os_Open := (\<lambda>_. Some ''open ./index.html: no such file or directory'')\<rparr>)
      ''./index.html'' = Some ''open ./index.html: no such file or directory'' \<and>
   uploadFile (world0\<lparr>os_Open := (\<lambda>_. Some ''open ./index.html: no such file or directory'')\<rparr>)
      ''index.html'' '''' ''./user1'' ''text/html'' ''./index.html''
     = ([OsOpen ''./index.html'',
         Printf (''An error occurred: %v'' @ nl) [''open ./index.html: no such file or directory'']],
        Return (None, Some ''open ./index.html: no such file or directory'')) \<and>
   os_Open (world0\<lparr>file_Stat := (\<lambda>_. (None, Some ''stat ./index.html: input/output error''))\<rparr>)
      ''./index.html'' = None \<and>
   file_Stat (world0\<lparr>file_Stat := (\<lambda>_. (None, Some ''stat ./index.html: input/output error''))\<rparr>)
      ''./index.html'' = (None, Some ''stat ./index.html: input/output error'') \<and>
   uploadFile (world0\<lparr>file_Stat := (\<lambda>_. (None, Some ''stat ./index.html: input/output error''))\<rparr>)
      ''index.html'' '''' ''./user1'' ''text/html'' ''./index.html''
     = ([OsOpen ''./index.html'', FileStat ''./index.html''],
        Return (None, Some ''stat ./index.html: input/output error''))"
  using
    uploadFile_unreadable
      [of "world0\<lparr>os_Open := (\<lambda>_. Some ''open ./index.html: no such file or directory'')\<rparr>"
          "''./index.html''" "''open ./index.html: no such file or directory''"
          "''index.html''" "''''" "''./user1''" "''text/html''" None]
    uploadFile_unreadable
      [of "world0\<lparr>file_Stat := (\<lambda>_. (None, Some ''stat ./index.html: input/output error''))\<rparr>"
          "''./index.html''" "''stat ./index.html: input/output error''"
          "''index.html''" "''''" "''./user1''" "''text/html''" None]
  by (simp add: world0_def)

text \<open>
  C8: for the empty folder name \<open>getOrCreateFolder\<close> returns the empty identifier with
  no event at all, so without a query or a creation request; the upload that follows
  sends its file with no parent.
\<close>

theorem getOrCreateFolder_empty:
  "getOrCreateFolder w '''' = ([], Return '''') \<and>
   Parents (new_File title description mimeType) = [] \<and>
   (os_Open w filename = None \<and> file_Stat w filename = (Some sz, None) \<longrightarrow>
      (\<exists>tr r. uploadFile w title description '''' mimeType filename
         = ([OsOpen filename, FileStat filename, Println ''Start upload'',
             FilesInsertMedia (new_File title description mimeType) sz mimeType] @ tr, r)))"
proof (intro conjI impI)
  show g: "getOrCreateFolder w '''' = ([], Return '''')"
    by (simp add: getOrCreateFolder_def ret_def)
  show "Parents (new_File title description mimeType) = []"
    by (simp add: new_File_def)
  assume a: "os_Open w filename = None \<and> file_Stat w filename = (Some sz, None)"
  have f: "(new_File title description mimeType)\<lparr>Parents := []\<rparr> = new_File title description mimeType"
    by (simp add: new_File_def)
  show "\<exists>tr r. uploadFile w title description '''' mimeType filename
         = ([OsOpen filename, FileStat filename, Println ''Start upload'',
             FilesInsertMedia (new_File title description mimeType) sz mimeType] @ tr, r)"
    using a by (simp add: uploadFile_def g f run_simps Let_def)
qed

theorem getOrCreateFolder_empty_witness:
  "os_Open world0 ''./index.html'' = None \<and> file_Stat world0 ''./index.html'' = (Some 0, None) \<and>
   getOrCreateFolder world0 '''' = ([], Return '''') \<and>
   (\<exists>tr r. uploadFile world0 ''index.html'' '''' '''' ''text/html'' ''./index.html''
         = ([OsOpen ''./index.html'', FileStat ''./index.html'', Println ''Start upload'',
             FilesInsertMedia (new_File ''index.html'' '''' ''text/html'') 0 ''text/html''] @ tr, r))"
  using getOrCreateFolder_empty
    [of world0 "''index.html''" "''''" "''text/html''" "''./index.html''" 0]
  by (simp add: world0_def)

text \<open>
  Three concrete worlds: a cache hit, a cache file that cannot be opened, and a cache
  file that cannot be decoded.
\<close>

theorem getClient_cache_witness:
  "os_Open world0 cache_path = None \<and> json_Decode world0 cache_path = (token0, None) \<and>
   user_Current world0 = (Some \<lparr>HomeDir = ''/home/u''\<rparr>, None) \<and>
   \<not> list_ex is_interactive (fst (getClient world0)) \<and>
   getClient world0 =
     ([UserCurrent, MkdirAll ''.credentials'', OsOpen cache_path, JsonDecode cache_path,
       FileClose cache_path], Return (Client (Some token0))) \<and>
   os_Open (world0\<lparr>os_Open := (\<lambda>_. Some ''no such file or directory'')\<rparr>) cache_path
     = Some ''no such file or directory'' \<and>
   (\<exists>tr. fst (getClient (world0\<lparr>os_Open := (\<lambda>_. Some ''no such file or directory'')\<rparr>)) =
      [UserCurrent, MkdirAll ''.credentials'', OsOpen cache_path,
       Printf auth_prompt [''https://accounts.google.com/o/oauth2/auth''],
       Printf (''Enter Verfication Code:'' @ nl) [], ScanStdin] @ tr) \<and>
   json_Decode (world0\<lparr>json_Decode := (\<lambda>_. (token0, Some ''unexpected end of JSON input''))\<rparr>)
     cache_path = (token0, Some ''unexpected end of JSON input'') \<and>
   (\<exists>tr. fst (getClient
               (world0\<lparr>json_Decode := (\<lambda>_. (token0, Some ''unexpected end of JSON input''))\<rparr>)) =
      [UserCurrent, MkdirAll ''.credentials'', OsOpen cache_path, JsonDecode cache_path,
       FileClose cache_path,
       Printf auth_prompt [''https://accounts.google.com/o/oauth2/auth''],
       Printf (''Enter Verfication Code:'' @ nl) [], ScanStdin] @ tr)"
  using
    getClient_cache[of world0 token0 "Some \<lparr>HomeDir = ''/home/u''\<rparr>" "''''"]
    getClient_cache[of "world0\<lparr>os_Open := (\<lambda>_. Some ''no such file or directory'')\<rparr>"
      token0 "Some \<lparr>HomeDir = ''/home/u''\<rparr>" "''no such file or directory''"]
    getClient_cache[of "world0\<lparr>json_Decode := (\<lambda>_. (token0, Some ''unexpected end of JSON input''))\<rparr>"
      token0 "Some \<lparr>HomeDir = ''/home/u''\<rparr>" "''unexpected end of JSON input''"]
  by (simp add: world0_def)

definition world_create_fails :: world where
  "world_create_fails =
     world0\<lparr>flag_folderName := ''archive'',
            Files_Insert := (\<lambda>f. (None, Some ''googleapi: Error 403: Rate Limit Exceeded''))\<rparr>"

text \<open>
  C3: a world in which no folder is called \<open>archive\<close> and the request that creates it
  is rejected; the client library returns \<^verbatim>\<open>nil\<close> with the error. \<open>getOrCreateFolder\<close>
  prints the error and then reads \<^verbatim>\<open>r.Id\<close> from the \<^verbatim>\<open>nil\<close> result: the run panics
  before the transfer is requested, instead of uploading without a parent.
\<close>

theorem getOrCreateFolder_create_fails:
  "Files_List world_create_fails (Some (folder_query ''archive'')) 1 = (Some [], None) \<and>
   Files_Insert world_create_fails (new_File ''archive'' ''Auto Create by gdrive-upload'' folder_mime)
     = (None, Some ''googleapi: Error 403: Rate Limit Exceeded'') \<and>
   getOrCreateFolder world_create_fails ''archive''
     = ([FilesList (Some (folder_query ''archive'')) 1,
         Printf (''Folder not found. Create new folder : %s'' @ nl) [''archive''],
         FilesInsert (new_File ''archive'' ''Auto Create by gdrive-upload'' folder_mime),
         Printf (''An error occurred when create folder: %v'' @ nl)
           [''googleapi: Error 403: Rate Limit Exceeded'']],
        Panic NilDereference) \<and>
   uploadFile world_create_fails ''index.html'' '''' ''archive'' ''text/html'' ''./index.html''
     = ([OsOpen ''./index.html'', FileStat ''./index.html'',
         FilesList (Some (folder_query ''archive'')) 1,
         Printf (''Folder not found. Create new folder : %s'' @ nl) [''archive''],
         FilesInsert (new_File ''archive'' ''Auto Create by gdrive-upload'' folder_mime),
         Printf (''An error occurred when create folder: %v'' @ nl)
           [''googleapi: Error 403: Rate Limit Exceeded'']],
        Panic NilDereference)"
proof -
  have g: "getOrCreateFolder world_create_fails ''archive''
     = ([FilesList (Some (folder_query ''archive'')) 1,
         Printf (''Folder not found. Create new folder : %s'' @ nl) [''archive''],
         FilesInsert (new_File ''archive'' ''Auto Create by gdrive-upload'' folder_mime),
         Printf (''An error occurred when create folder: %v'' @ nl)
           [''googleapi: Error 403: Rate Limit Exceeded'']],
        Panic NilDereference)"
    by (simp add: getOrCreateFolder_def world_create_fails_def world0_def run_simps run_atoms)
  have u: "os_Open world_create_fails ''./index.html'' = None"
    "file_Stat world_create_fails ''./index.html'' = (Some 0, None)"
    by (simp_all add: world_create_fails_def world0_def)
  show ?thesis
    unfolding g
    by (simp add: uploadFile_def u g run_simps) (simp add: world_create_fails_def world0_def)
qed

text \<open>
  A world in which the transfer fails with a transport error and everything else
  succeeds.
\<close>

definition world_upload_fails :: world where
  "world_upload_fails =
     world0\<lparr>Files_Insert_Media :=
              (\<lambda>f sz m. ([], None, Some ''Post upload/drive/v2/files: connection reset by peer''))\<rparr>"

lemma world_upload_fails_fields:
  "flag_inputPath world_upload_fails = ''./index.html''"
  "flag_outputFile world_upload_fails = []"
  "flag_folderName world_upload_fails = ''./user1''"
  "ioutil_ReadFile world_upload_fails p = (''{}'', None)"
  "google_ConfigFromJSON world_upload_fails b = None"
  "drive_New world_upload_fails = None"
  "filepath_Base world_upload_fails p = ''index.html''"
  "filepath_Ext world_upload_fails p = ''.html''"
  "mime_TypeByExtension world_upload_fails x = ''text/html''"
  "os_Open world_upload_fails p = None"
  "file_Stat world_upload_fails p = (Some 0, None)"
  "Files_List world_upload_fails q n = (Some [], None)"
  "Files_Insert world_upload_fails f = (Some (f\<lparr>FileId := ''folder1''\<rparr>), None)"
  "Files_Insert_Media world_upload_fails f sz m
     = ([], None, Some ''Post upload/drive/v2/files: connection reset by peer'')"
  by (simp_all add: world_upload_fails_def world0_def)

lemma main_before_upload_world_upload_fails:
  "main_before_upload world_upload_fails =
     ([ReadFile ''client_secret.json'', ConfigFromJSON ''{}'',
       UserCurrent, MkdirAll ''.credentials'', OsOpen cache_path, JsonDecode cache_path,
       FileClose cache_path, DriveNew,
       Printf (''Read file: %s'' @ nl) [''./index.html''],
       Printf (''Output name: %s'' @ nl) [''index.html''],
       Printf (''Mime : %s'' @ nl) [''text/html'']],
      Return (''index.html'', ''text/html''))"
proof -
  have c: "getClient world_upload_fails =
        ([UserCurrent, MkdirAll ''.credentials'', OsOpen cache_path, JsonDecode cache_path,
          FileClose cache_path], Return (Client (Some token0)))"
    by (simp add: getClient_def tokenCacheFile_def tokenFromFile_def run_simps run_atoms
        world_upload_fails_def world0_def)
  show ?thesis
    by (simp add: main_before_upload_def c world_upload_fails_fields run_simps run_atoms Let_def)
qed

lemma getOrCreateFolder_world_upload_fails:
  "getOrCreateFolder world_upload_fails ''./user1'' =
     ([FilesList (Some (folder_query ''./user1'')) 1,
       Printf (''Folder not found. Create new folder : %s'' @ nl) [''./user1''],
       FilesInsert (new_File ''./user1'' ''Auto Create by gdrive-upload'' folder_mime)],
      Return ''folder1'')"
  by (simp add: getOrCreateFolder_def world_upload_fails_fields run_simps run_atoms)

text \<open>
  Immediate termination, as the specification has it, fails in that world: after the
  failed transfer \<open>main\<close> lists the catalog and the process ends with status 0.
\<close>

theorem main_upload_fails_continues:
  "main world_upload_fails =
     ([ReadFile ''client_secret.json'', ConfigFromJSON ''{}'',
       UserCurrent, MkdirAll ''.credentials'', OsOpen cache_path, JsonDecode cache_path,
       FileClose cache_path, DriveNew,
       Printf (''Read file: %s'' @ nl) [''./index.html''],
       Printf (''Output name: %s'' @ nl) [''index.html''],
       Printf (''Mime : %s'' @ nl) [''text/html''],
       OsOpen ''./index.html'', FileStat ''./index.html'',
       FilesList (Some (folder_query ''./user1'')) 1,
       Printf (''Folder not found. Create new folder : %s'' @ nl) [''./user1''],
       FilesInsert (new_File ''./user1'' ''Auto Create by gdrive-upload'' folder_mime),
       Println ''Start upload'',
       FilesInsertMedia ((new_File ''index.html'' '''' ''text/html'')\<lparr>Parents := [''folder1'']\<rparr>)
         0 ''text/html'',
       Printf (''An error occurred: %v'' @ nl)
         [''Post upload/drive/v2/files: connection reset by peer''],
       FilesList None 10,
       Println ''Files:'',
       Print ''No files found.''],
      Return ()) \<and>
   exit_status (snd (main world_upload_fails)) = 0"
proof -
  note b = main_before_upload_world_upload_fails
  note g = getOrCreateFolder_world_upload_fails
  have u: "uploadFile world_upload_fails ''index.html'' '''' ''./user1'' ''text/html'' ''./index.html'' =
     ([OsOpen ''./index.html'', FileStat ''./index.html'',
       FilesList (Some (folder_query ''./user1'')) 1,
       Printf (''Folder not found. Create new folder : %s'' @ nl) [''./user1''],
       FilesInsert (new_File ''./user1'' ''Auto Create by gdrive-upload'' folder_mime),
       Println ''Start upload'',
       FilesInsertMedia ((new_File ''index.html'' '''' ''text/html'')\<lparr>Parents := [''folder1'']\<rparr>)
         0 ''text/html'',
       Printf (''An error occurred: %v'' @ nl)
         [''Post upload/drive/v2/files: connection reset by peer'']],
      Return (None, Some ''Post upload/drive/v2/files: connection reset by peer''))"
    by (simp add: uploadFile_def g world_upload_fails_fields run_simps run_atoms Let_def)
  have a: "main_after_upload world_upload_fails =
     ([FilesList None 10, Println ''Files:'', Print ''No files found.''], Return ())"
    by (simp add: main_after_upload_def world_upload_fails_fields run_simps run_atoms)
  note f = world_upload_fails_fields(1,3)
  have m: "main world_upload_fails =
     (fst (main_before_upload world_upload_fails)
        @ fst (uploadFile world_upload_fails ''index.html'' '''' ''./user1'' ''text/html'' ''./index.html'')
        @ fst (main_after_upload world_upload_fails), Return ())"
    by (simp add: main_def b f u a run_simps)
  show ?thesis unfolding m b u a by (simp add: exit_status_def)
qed

lemma print_items_returns: "snd (print_items items) = Return ()"
  by (induction items) (simp_all add: run_simps run_atoms)

lemma main_after_upload_starts: "\<exists>tr2. fst (main_after_upload w) = FilesList None 10 # tr2"
  by (simp add: main_after_upload_def run_simps)

lemma main_after_upload_status:
  "Files_List w None 10 = (Some items, None) \<Longrightarrow> snd (main_after_upload w) = Return ()"
  by (simp add: main_after_upload_def run_simps run_atoms print_items_returns)

text \<open>
  C2, amended: in every run that reaches the upload and whose transfer fails with a
  transport error, \<open>uploadFile\<close> prints the diagnostic and returns the error;
  \<open>main\<close> discards it and goes on to list the catalog. The exit status is that of the
  listing: 0 when the listing succeeds.
\<close>

theorem main_upload_failure:
  assumes "main_before_upload w = (tr0, Return (title, mime))"
    and "os_Open w (flag_inputPath w) = None"
    and "file_Stat w (flag_inputPath w) = (Some sz, None)"
    and "getOrCreateFolder w (flag_folderName w) = (trf, Return parentId)"
    and "f = (new_File title '''' mime)\<lparr>Parents := (if parentId \<noteq> '''' then [parentId] else [])\<rparr>"
    and "Files_Insert_Media w f sz mime = (calls, r, Some e)"
    and "run_progress calls = (trp, Return ())"
  shows "uploadFile w title '''' (flag_folderName w) mime (flag_inputPath w)
           = ([OsOpen (flag_inputPath w), FileStat (flag_inputPath w)] @ trf
                @ [Println ''Start upload'', FilesInsertMedia f sz mime] @ trp
                @ [Printf (''An error occurred: %v'' @ nl) [e]],
              Return (None, Some e)) \<and>
         main w
           = (tr0 @ [OsOpen (flag_inputPath w), FileStat (flag_inputPath w)] @ trf
                @ [Println ''Start upload'', FilesInsertMedia f sz mime] @ trp
                @ [Printf (''An error occurred: %v'' @ nl) [e]]
                @ fst (main_after_upload w),
              snd (main_after_upload w)) \<and>
         (\<exists>tr2. fst (main_after_upload w) = FilesList None 10 # tr2) \<and>
         (\<forall>items. Files_List w None 10 = (Some items, None) \<longrightarrow> exit_status (snd (main w)) = 0)"
proof -
  have u: "uploadFile w title '''' (flag_folderName w) mime (flag_inputPath w)
           = ([OsOpen (flag_inputPath w), FileStat (flag_inputPath w)] @ trf
                @ [Println ''Start upload'', FilesInsertMedia f sz mime] @ trp
                @ [Printf (''An error occurred: %v'' @ nl) [e]],
              Return (None, Some e))"
    using assms(2-4,6,7) unfolding assms(5)
    by (simp add: uploadFile_def run_simps run_atoms Let_def)
  have m: "main w
           = (tr0 @ [OsOpen (flag_inputPath w), FileStat (flag_inputPath w)] @ trf
                @ [Println ''Start upload'', FilesInsertMedia f sz mime] @ trp
                @ [Printf (''An error occurred: %v'' @ nl) [e]]
                @ fst (main_after_upload w),
              snd (main_after_upload w))"
    by (simp add: main_def assms(1) u run_simps)
  have "\<forall>items. Files_List w None 10 = (Some items, None) \<longrightarrow> exit_status (snd (main w)) = 0"
    unfolding m by (simp add: main_after_upload_status exit_status_def)
  then show ?thesis using u m main_after_upload_starts by blast
qed

theorem main_upload_failure_witness:
  "main_before_upload world_upload_fails =
     ([ReadFile ''client_secret.json'', ConfigFromJSON ''{}'',
       UserCurrent, MkdirAll ''.credentials'', OsOpen cache_path, JsonDecode cache_path,
       FileClose cache_path, DriveNew,
       Printf (''Read file: %s'' @ nl) [''./index.html''],
       Printf (''Output name: %s'' @ nl) [''index.html''],
       Printf (''Mime : %s'' @ nl) [''text/html'']],
      Return (''index.html'', ''text/html'')) \<and>
   os_Open world_upload_fails (flag_inputPath world_upload_fails) = None \<and>
   file_Stat world_upload_fails (flag_inputPath world_upload_fails) = (Some 0, None) \<and>
   getOrCreateFolder world_upload_fails (flag_folderName world_upload_fails) =
     ([FilesList (Some (folder_query ''./user1'')) 1,
       Printf (''Folder not found. Create new folder : %s'' @ nl) [''./user1''],
       FilesInsert (new_File ''./user1'' ''Auto Create by gdrive-upload'' folder_mime)],
      Return ''folder1'') \<and>
   Files_Insert_Media world_upload_fails
       ((new_File ''index.html'' '''' ''text/html'')\<lparr>Parents := [''folder1'']\<rparr>) 0 ''text/html''
     = ([], None, Some ''Post upload/drive/v2/files: connection reset by peer'') \<and>
   run_progress [] = ([], Return ()) \<and>
   Files_List world_upload_fails None 10 = (Some [], None) \<and>
   (\<exists>tr2. fst (main_after_upload world_upload_fails) = FilesList None 10 # tr2) \<and>
   exit_status (snd (main world_upload_fails)) = 0"
proof -
  note b = main_before_upload_world_upload_fails
  have o: "os_Open world_upload_fails (flag_inputPath world_upload_fails) = None"
    by (simp add: world_upload_fails_fields)
  have s: "file_Stat world_upload_fails (flag_inputPath world_upload_fails) = (Some 0, None)"
    by (simp add: world_upload_fails_fields)
  have g: "getOrCreateFolder world_upload_fails (flag_folderName world_upload_fails) =
     ([FilesList (Some (folder_query ''./user1'')) 1,
       Printf (''Folder not found. Create new folder : %s'' @ nl) [''./user1''],
       FilesInsert (new_File ''./user1'' ''Auto Create by gdrive-upload'' folder_mime)],
      Return ''folder1'')"
    by (simp add: getOrCreateFolder_world_upload_fails world_upload_fails_fields)
  have f: "(new_File ''index.html'' '''' ''text/html'')\<lparr>Parents := [''folder1'']\<rparr>
      = (new_File ''index.html'' '''' ''text/html'')
          \<lparr>Parents := (if ''folder1'' \<noteq> '''' then [''folder1''] else [])\<rparr>"
    by simp
  have t: "Files_Insert_Media world_upload_fails
       ((new_File ''index.html'' '''' ''text/html'')\<lparr>Parents := [''folder1'']\<rparr>) 0 ''text/html''
     = ([], None, Some ''Post upload/drive/v2/files: connection reset by peer'')"
    by (simp add: world_upload_fails_fields)
  have p: "run_progress [] = ([], Return ())" by (simp add: ret_def)
  have l: "Files_List world_upload_fails None 10 = (Some [], None)"
    by (simp add: world_upload_fails_fields)
  note h = main_upload_failure[OF b o s g f t p]
  show ?thesis using b o s g t p l h by blast
qed

end
